theory Spec2Isabelle
  imports Complex_Main "HOL-Library.Word" "HOL-Library.Sublist"
begin

section \<open>Values shared by the components\<close>

text \<open>
  A \<open>Blob\<close> is the sequence of its bytes; \<open>blob.size\<close> is the length of that sequence and
  \<open>new Blob(parts)\<close> is the concatenation of the parts in order.  JavaScript numbers that
  hold times in seconds are modelled as reals: the only arithmetic the code does on them is
  \<open>(Date.now() - startTime) / 1000\<close>.  Handles returned by the browser (\<open>setInterval\<close>,
  \<open>requestAnimationFrame\<close>, object identities) are natural numbers.
\<close>

type_synonym byte = "8 word"
type_synonym blob = "byte list"

definition new_Blob :: "blob list \<Rightarrow> blob" where
  "new_Blob parts = concat parts"

section \<open>App.tsx: the capture session\<close>

text \<open>
  The component state of \<open>App\<close> (its \<open>useState\<close> cells and \<open>useRef\<close> cells) together with the
  part of the browser the handlers act on: the \<open>getUserMedia\<close> requests that have not resolved
  yet, the \<open>MediaRecorder\<close> objects, the interval timers (each remembers the \<open>startTime\<close> its
  callback closed over), the media streams whose tracks are live, the reading of \<open>Date.now()\<close>
  in milliseconds, and the alerts shown.
\<close>

datatype recorder_phase =
    Capturing      \<comment> \<open>\<open>start()\<close> was called: \<open>state = "recording"\<close>\<close>
  | Finalizing     \<comment> \<open>\<open>stop()\<close> was called: \<open>state = "inactive"\<close>, the last \<open>dataavailable\<close>
                       and the \<open>stop\<close> event are still to be delivered\<close>
  | Finished       \<comment> \<open>the \<open>stop\<close> event was delivered\<close>

datatype dom_error = NotAllowedError | NotFoundError | InvalidStateError

record app_state =
  isRecording :: bool
  audioBlob :: "blob option"
  audioUrl :: "string option"
  showRecorder :: bool
  showSaveModal :: bool
  recordingTime :: real
  isPlaying :: bool
  mediaRecorderRef :: "nat option"
  audioChunksRef :: "blob list"
  analyserRef :: "nat option"
  timerRef :: "nat option"
  pending_requests :: nat
  recorders :: "nat \<rightharpoonup> recorder_phase \<times> nat"
  intervals :: "nat \<rightharpoonup> int"
  live_streams :: "nat set"
  clock :: int
  next_handle :: nat
  alerts :: "string list"

text \<open>The state after the first render: every \<open>useState\<close> and \<open>useRef\<close> at its initial value.\<close>

definition init_app :: app_state where
  "init_app = \<lparr> isRecording = False, audioBlob = None, audioUrl = None,
     showRecorder = False, showSaveModal = False, recordingTime = 0, isPlaying = False,
     mediaRecorderRef = None, audioChunksRef = [], analyserRef = None, timerRef = None,
     pending_requests = 0, recorders = Map.empty, intervals = Map.empty, live_streams = {},
     clock = 0, next_handle = 0, alerts = [] \<rparr>"

text \<open>
  \<open>startRecording\<close> is asynchronous.  The call runs to \<open>await getUserMedia(...)\<close>: it writes
  nothing and leaves one more request outstanding.
\<close>

definition startRecording :: "app_state \<Rightarrow> app_state" where
  "startRecording s = s\<lparr> pending_requests := pending_requests s + 1 \<rparr>"

text \<open>
  The rest of \<open>startRecording\<close> runs when the request resolves, in the state of that moment.
  Its argument is the outcome: a rejection (caught by the \<open>catch\<close>, which logs and alerts) or a
  granted stream.  Fresh objects take the handles \<open>next_handle + 1 ..\<close>, so no handle is \<open>0\<close>.
\<close>

definition startRecording_resumed :: "dom_error + unit \<Rightarrow> app_state \<Rightarrow> app_state" where
  "startRecording_resumed getUserMedia s =
     (case getUserMedia of
        Inl err \<Rightarrow>
          s\<lparr> alerts := alerts s @
               [''Unable to access microphone. Please ensure you have granted permission.''] \<rparr>
      | Inr granted \<Rightarrow>
          (let stream = next_handle s + 1;
               mediaRecorder = next_handle s + 2;
               analyser = next_handle s + 3;
               timer = next_handle s + 4;
               startTime = clock s
           in s\<lparr> mediaRecorderRef := Some mediaRecorder,
                 analyserRef := Some analyser,
                 audioChunksRef := [],
                 audioBlob := None,
                 audioUrl := None,
                 recorders := (recorders s)(mediaRecorder \<mapsto> (Capturing, stream)),
                 live_streams := insert stream (live_streams s),
                 isRecording := True,
                 intervals := (intervals s)(timer \<mapsto> startTime),
                 timerRef := Some timer,
                 next_handle := next_handle s + 4 \<rparr>))"

text \<open>The browser resolves an outstanding request, if there is one.\<close>

definition getUserMedia_resolved :: "dom_error + unit \<Rightarrow> app_state \<Rightarrow> app_state" where
  "getUserMedia_resolved outcome s =
     (if pending_requests s = 0 then s
      else startRecording_resumed outcome (s\<lparr> pending_requests := pending_requests s - 1 \<rparr>))"

text \<open>
  \<open>mediaRecorder.ondataavailable\<close>: the handler pushes a chunk of positive size on the shared
  \<open>audioChunksRef\<close>.  The browser delivers the event only to a recorder that was started and
  whose \<open>stop\<close> event has not fired yet.
\<close>

definition ondataavailable :: "nat \<Rightarrow> blob \<Rightarrow> app_state \<Rightarrow> app_state" where
  "ondataavailable r data s =
     (case recorders s r of
        None \<Rightarrow> s
      | Some (Finished, stream) \<Rightarrow> s
      | Some (ph, stream) \<Rightarrow>
          (if length data > 0 then s\<lparr> audioChunksRef := audioChunksRef s @ [data] \<rparr> else s))"

text \<open>
  \<open>mediaRecorder.onstop\<close>: builds the blob from the chunks, publishes it with the object URL
  the browser hands out, stops the tracks of the stream the handler closed over and opens the
  save dialog.  The handler has no condition of its own.  The browser fires \<open>stop\<close> once on a
  recorder that was started: after \<open>stop()\<close> was called on it, or when its stream ends by
  itself while it is still recording.
\<close>

definition onstop :: "nat \<Rightarrow> string \<Rightarrow> app_state \<Rightarrow> app_state" where
  "onstop r objectUrl s =
     (case recorders s r of
        None \<Rightarrow> s
      | Some (Finished, stream) \<Rightarrow> s
      | Some (ph, stream) \<Rightarrow>
          s\<lparr> audioBlob := Some (new_Blob (audioChunksRef s)),
             audioUrl := Some objectUrl,
             live_streams := live_streams s - {stream},
             showSaveModal := True,
             recorders := (recorders s)(r \<mapsto> (Finished, stream)) \<rparr>)"

text \<open>The interval callback: \<open>setRecordingTime((Date.now() - startTime) / 1000)\<close>.\<close>

definition timer_fire :: "nat \<Rightarrow> app_state \<Rightarrow> app_state" where
  "timer_fire t s =
     (case intervals s t of
        None \<Rightarrow> s
      | Some startTime \<Rightarrow> s\<lparr> recordingTime := real_of_int (clock s - startTime) / 1000 \<rparr>)"

text \<open>
  \<open>clearInterval\<close> behind the truthiness test \<open>if (timerRef.current)\<close>: \<open>null\<close> and \<open>0\<close> are
  falsy.
\<close>

definition clear_timerRef :: "app_state \<Rightarrow> nat \<rightharpoonup> int" where
  "clear_timerRef s =
     (case timerRef s of
        None \<Rightarrow> intervals s
      | Some t \<Rightarrow> if t \<noteq> 0 then (intervals s)(t := None) else intervals s)"

text \<open>
  \<open>stopRecording\<close>.  \<open>MediaRecorder.stop()\<close> throws \<open>InvalidStateError\<close> on a recorder that is
  not recording; the exception leaves the handler before any state is written.
\<close>

definition stopRecording :: "app_state \<Rightarrow> dom_error + app_state" where
  "stopRecording s =
     (case mediaRecorderRef s of
        None \<Rightarrow> Inr s
      | Some r \<Rightarrow>
          if isRecording s then
            (case recorders s r of
               Some (Capturing, stream) \<Rightarrow>
                 Inr (s\<lparr> recorders := (recorders s)(r \<mapsto> (Finalizing, stream)),
                          isRecording := False,
                          intervals := clear_timerRef s \<rparr>)
             | _ \<Rightarrow> Inl InvalidStateError)
          else Inr s)"

text \<open>
  The record button: \<open>onClick={isRecording ? stopRecording : startRecording}\<close>.  The choice is
  made with the \<open>isRecording\<close> of the click's render; a chosen \<open>startRecording\<close> only gets as far
  as its \<open>await\<close>.
\<close>

definition record_button_onClick :: "app_state \<Rightarrow> dom_error + app_state" where
  "record_button_onClick s =
     (if isRecording s then stopRecording s else Inr (startRecording s))"

text \<open>The \<open>onSaved\<close> callback handed to the save dialog.\<close>

definition onSaved :: "app_state \<Rightarrow> app_state" where
  "onSaved s = s\<lparr> showSaveModal := False, showRecorder := False, audioBlob := None,
                   audioUrl := None, recordingTime := 0 \<rparr>"

text \<open>
  What can happen to the component, one event at a time, and the handler each event runs.  An
  uncaught exception in a handler leaves the state as it was.  \<open>ClockChange\<close> moves the reading
  of \<open>Date.now()\<close>, forwards as time passes or backwards when the system clock is set back.
\<close>

datatype app_event =
    ClickRecord
  | MicResolved "dom_error + unit"
  | DataAvailable nat blob
  | StopEvent nat string
  | TimerFire nat
  | ClockChange int
  | Saved

fun app_handler :: "app_state \<Rightarrow> app_event \<Rightarrow> app_state" where
  "app_handler s ClickRecord =
     (case record_button_onClick s of Inl e \<Rightarrow> s | Inr s' \<Rightarrow> s')"
| "app_handler s (MicResolved g) = getUserMedia_resolved g s"
| "app_handler s (DataAvailable r d) = ondataavailable r d s"
| "app_handler s (StopEvent r u) = onstop r u s"
| "app_handler s (TimerFire t) = timer_fire t s"
| "app_handler s (ClockChange d) = s\<lparr> clock := clock s + d \<rparr>"
| "app_handler s Saved = onSaved s"

text \<open>
  The component's first effect depends on \<open>audioUrl\<close>.  When a handler has changed \<open>audioUrl\<close>,
  the render that follows runs the cleanup of the effect's previous run, which clears the
  interval \<open>timerRef.current\<close> names at that moment.  (It also revokes the previous object URL;
  the model does not keep track of object URLs.)
\<close>

definition audioUrl_cleanup :: "app_state \<Rightarrow> app_state \<Rightarrow> app_state" where
  "audioUrl_cleanup before after =
     (if audioUrl after = audioUrl before then after
      else after\<lparr> intervals := clear_timerRef after \<rparr>)"

definition app_step :: "app_state \<Rightarrow> app_event \<Rightarrow> app_state" where
  "app_step s e = audioUrl_cleanup s (app_handler s e)"

definition app_run :: "app_state \<Rightarrow> app_event list \<Rightarrow> app_state" where
  "app_run s evs = foldl app_step s evs"

text \<open>The chunks a list of events delivers to recorder \<open>r\<close>, in order.\<close>

fun delivered :: "nat \<Rightarrow> app_event list \<Rightarrow> blob list" where
  "delivered r [] = []"
| "delivered r (DataAvailable r' d # evs) =
     (if r' = r then d # delivered r evs else delivered r evs)"
| "delivered r (e # evs) = delivered r evs"

text \<open>
  The events of one capture session other than its start, its stop command and its \<open>stop\<close>
  event: chunks delivered to its recorder, interval ticks and changes of the clock reading.
\<close>

fun session_event :: "nat \<Rightarrow> app_event \<Rightarrow> bool" where
  "session_event r (DataAvailable r' d) = (r' = r)"
| "session_event r (TimerFire t) = True"
| "session_event r (ClockChange d) = True"
| "session_event r e = False"

text \<open>An event that does not set the clock back.\<close>

fun forward_event :: "app_event \<Rightarrow> bool" where
  "forward_event (ClockChange d) = (0 \<le> d)"
| "forward_event e = True"

text \<open>
  What holds as long as the clock is not set back: the elapsed time shown is not negative, and
  no live interval timer closed over a start time later than the clock reading.
\<close>

definition app_inv :: "app_state \<Rightarrow> bool" where
  "app_inv s = (0 \<le> recordingTime s \<and> (\<forall>t st. intervals s t = Some st \<longrightarrow> st \<le> clock s))"

text \<open>Concrete runs from the initial state, used below.\<close>

definition first_session_recording :: app_state where
  "first_session_recording = app_run init_app [ClickRecord, ClickRecord, MicResolved (Inr ())]"

definition empty_session_example :: app_state where
  "empty_session_example = app_run init_app
     [ClickRecord, MicResolved (Inr ()), ClickRecord, DataAvailable 2 [], StopEvent 2 ''blob:a'']"

definition stream_ended_example :: app_state where
  "stream_ended_example = app_run init_app
     [ClickRecord, MicResolved (Inr ()), DataAvailable 2 [1, 2], StopEvent 2 ''blob:a'']"

definition clock_set_back_example :: app_state where
  "clock_set_back_example = app_run init_app
     [ClickRecord, MicResolved (Inr ()), ClockChange (- 400), TimerFire 4, ClickRecord,
      DataAvailable 2 [1, 2], StopEvent 2 ''blob:a'']"

section \<open>lib/supabase.ts and the backend it talks to\<close>

text \<open>
  A JavaScript string that users type (a title, a search term) is its sequence of UTF-16 code
  units.  Identifiers, URLs and messages are ASCII and are written as HOL strings.
\<close>

type_synonym jsstring = "16 word list"

text \<open>
  \<open>String.prototype.trim\<close> removes the ECMAScript \<open>WhiteSpace\<close> and \<open>LineTerminator\<close> code
  points from both ends.
\<close>

definition is_js_whitespace :: "16 word \<Rightarrow> bool" where
  "is_js_whitespace c =
     (c \<in> {0x0009, 0x000A, 0x000B, 0x000C, 0x000D, 0x0020, 0x00A0, 0x1680,
            0x2000, 0x2001, 0x2002, 0x2003, 0x2004, 0x2005, 0x2006, 0x2007, 0x2008, 0x2009,
            0x200A, 0x2028, 0x2029, 0x202F, 0x205F, 0x3000, 0xFEFF})"

definition trim :: "jsstring \<Rightarrow> jsstring" where
  "trim s = rev (dropWhile is_js_whitespace (rev (dropWhile is_js_whitespace s)))"

text \<open>
  The error objects the backend SDK hands back.  A field that is absent is the empty string:
  the code reads the fields only through \<open>||\<close>, which treats both alike.
\<close>

record sb_error =
  err_code :: string
  err_message :: string
  err_description :: string
  err_error :: string

definition errorMessages :: "string \<rightharpoonup> string" where
  "errorMessages = map_of
     [(''auth/invalid-email'', ''Invalid email address''),
      (''auth/user-not-found'', ''No account found with this email''),
      (''auth/wrong-password'', ''Invalid password''),
      (''auth/email-already-in-use'', ''An account with this email already exists''),
      (''auth/weak-password'', ''Password should be at least 6 characters''),
      (''23505'', ''An account with this email already exists''),
      (''PGRST116'', ''No data found''),
      (''42P01'', ''Database table not found''),
      (''42501'', ''Permission denied''),
      (''refresh_token_not_found'', ''Your session has expired. Please sign in again.'')]"

text \<open>
  \<open>getErrorMessage\<close> on an error object.  (Keys that every JavaScript object inherits, such as
  \<open>constructor\<close>, are not error codes or messages of the backend and are not in the table.)
\<close>

definition getErrorMessage :: "sb_error \<Rightarrow> string" where
  "getErrorMessage e =
     (let message = (if err_message e \<noteq> [] then err_message e
                     else if err_description e \<noteq> [] then err_description e
                     else if err_error e \<noteq> [] then err_error e
                     else ''An error occurred'');
          key = (if err_code e \<noteq> [] then err_code e else message)
      in case errorMessages key of
           Some m \<Rightarrow> if m \<noteq> [] then m else message
         | None \<Rightarrow> message)"

definition supabaseUrl :: string where
  "supabaseUrl = ''https://qcywplfvzwxcatofizdx.supabase.co''"

text \<open>
  The rows of the two tables, as the migrations declare them, and the application's view of
  them.  A \<open>timestamptz\<close> is its number of microseconds since the epoch; \<open>Recording.date\<close>
  carries the same instant.
\<close>

record user =
  u_id :: string
  u_username :: string
  u_email :: string

record db_row =
  row_id :: string
  row_user_id :: string
  row_title :: jsstring
  row_audio_url :: string
  row_duration :: real
  row_created_at :: int

record recording =
  rec_id :: string
  rec_userId :: string
  rec_title :: jsstring
  rec_date :: int
  rec_audioUrl :: string
  rec_duration :: real

datatype net_call =
    SelectUser string
  | InsertUser string
  | SelectRecordings string
  | SelectAudioUrl string
  | InsertRecording string
  | DeleteRecording string
  | StorageUpload string
  | StorageRemove string
  | SignOut

text \<open>
  Modelled from the spec: the relational store and the object store are external collaborators
  (section 6: row-based CRUD on the two records keyed by owner, where an owner reads and
  writes only their own rows; \<open>upload(key, bytes)\<close>, \<open>getPublicUrl(key)\<close>, \<open>remove(key)\<close>).  The
  model keeps the rows of the two tables, the objects of the \<open>recordings\<close> bucket by key, and
  the list of network calls made so far, oldest first.  Every operation takes the fault the
  network or the service imposes on that call, if any; the constraints the migrations declare
  (primary keys, \<open>UNIQUE\<close>, \<open>NOT NULL\<close>, the foreign key) are faults the tables raise
  themselves.  Of the service's own errors the model keeps the code; the wording of their
  messages is illustrative.
\<close>

record backend =
  users_table :: "user list"
  recordings_table :: "db_row list"
  bucket :: "string \<rightharpoonup> blob"
  calls :: "net_call list"

definition called :: "net_call \<Rightarrow> backend \<Rightarrow> backend" where
  "called c be = be\<lparr> calls := calls be @ [c] \<rparr>"

definition no_rows_error :: sb_error where
  "no_rows_error = \<lparr> err_code = ''PGRST116'',
     err_message = ''JSON object requested, multiple (or no) rows returned'',
     err_description = [], err_error = [] \<rparr>"

definition duplicate_key_error :: sb_error where
  "duplicate_key_error = \<lparr> err_code = ''23505'',
     err_message = ''duplicate key value violates unique constraint'',
     err_description = [], err_error = [] \<rparr>"

definition resource_exists_error :: sb_error where
  "resource_exists_error = \<lparr> err_code = [], err_message = ''The resource already exists'',
     err_description = [], err_error = ''Duplicate'' \<rparr>"

definition not_null_error :: sb_error where
  "not_null_error = \<lparr> err_code = ''23502'',
     err_message = ''null value in column violates not-null constraint'',
     err_description = [], err_error = [] \<rparr>"

definition foreign_key_error :: sb_error where
  "foreign_key_error = \<lparr> err_code = ''23503'',
     err_message = ''insert or update on table violates foreign key constraint'',
     err_description = [], err_error = [] \<rparr>"

text \<open>\<open>.single()\<close>: exactly one row, or the error \<open>PGRST116\<close>.\<close>

definition single :: "'a list \<Rightarrow> sb_error + 'a" where
  "single rows = (case rows of [r] \<Rightarrow> Inr r | _ \<Rightarrow> Inl no_rows_error)"

text \<open>\<open>from('users').select('id, username, email').eq('id', id).single()\<close>\<close>

definition select_user :: "sb_error option \<Rightarrow> string \<Rightarrow> backend \<Rightarrow> (sb_error + user) \<times> backend" where
  "select_user fault uid be =
     (case fault of
        Some e \<Rightarrow> (Inl e, called (SelectUser uid) be)
      | None \<Rightarrow> (single (filter (\<lambda>u. u_id u = uid) (users_table be)),
                 called (SelectUser uid) be))"

text \<open>
  \<open>from('users').insert([{id, username, email}]).select().single()\<close>: \<open>id\<close> is the primary
  key, \<open>email\<close> is \<open>UNIQUE NOT NULL\<close>.
\<close>

definition insert_user ::
    "sb_error option \<Rightarrow> string \<Rightarrow> string \<Rightarrow> string option \<Rightarrow> backend
       \<Rightarrow> (sb_error + user) \<times> backend" where
  "insert_user fault uid uname email_v be =
     (case fault of
        Some e \<Rightarrow> (Inl e, called (InsertUser uid) be)
      | None \<Rightarrow>
          (case email_v of
             None \<Rightarrow> (Inl not_null_error, called (InsertUser uid) be)
           | Some em \<Rightarrow>
               if uid \<in> set (map u_id (users_table be)) \<or> em \<in> set (map u_email (users_table be))
               then (Inl duplicate_key_error, called (InsertUser uid) be)
               else (Inr \<lparr> u_id = uid, u_username = uname, u_email = em \<rparr>,
                     called (InsertUser uid)
                       (be\<lparr> users_table := users_table be @
                              [\<lparr> u_id = uid, u_username = uname, u_email = em \<rparr>] \<rparr>))))"

text \<open>
  \<open>from('recordings').select('*').eq('user_id', uid).order('created_at', {ascending: false})\<close>:
  the owner's rows, newest first.
\<close>

definition select_recordings ::
    "sb_error option \<Rightarrow> string \<Rightarrow> backend \<Rightarrow> (sb_error + db_row list) \<times> backend" where
  "select_recordings fault uid be =
     (case fault of
        Some e \<Rightarrow> (Inl e, called (SelectRecordings uid) be)
      | None \<Rightarrow>
          (Inr (sort_key (\<lambda>r. - row_created_at r)
                  (filter (\<lambda>r. row_user_id r = uid) (recordings_table be))),
           called (SelectRecordings uid) be))"

text \<open>
  \<open>from('recordings').insert([{user_id, title, audio_url, duration}])\<close>: the table fills in
  \<open>id\<close> (\<open>gen_random_uuid()\<close>, the primary key) and \<open>created_at\<close> (\<open>now()\<close>); \<open>user_id\<close>
  references \<open>users(id)\<close>.
\<close>

definition insert_recording ::
    "sb_error option \<Rightarrow> string \<Rightarrow> int \<Rightarrow> string \<Rightarrow> jsstring \<Rightarrow> string \<Rightarrow> real \<Rightarrow> backend
       \<Rightarrow> sb_error option \<times> backend" where
  "insert_recording fault new_id now uid title_v url dur be =
     (case fault of
        Some e \<Rightarrow> (Some e, called (InsertRecording uid) be)
      | None \<Rightarrow>
          if new_id \<in> set (map row_id (recordings_table be))
          then (Some duplicate_key_error, called (InsertRecording uid) be)
          else if uid \<notin> set (map u_id (users_table be))
          then (Some foreign_key_error, called (InsertRecording uid) be)
          else (None, called (InsertRecording uid)
                  (be\<lparr> recordings_table := recordings_table be @
                         [\<lparr> row_id = new_id, row_user_id = uid, row_title = title_v,
                            row_audio_url = url, row_duration = dur, row_created_at = now \<rparr>] \<rparr>)))"

text \<open>
  \<open>from('recordings').select('audio_url').eq('id', id).single()\<close>, which sees the caller's own
  rows only (row-level security).
\<close>

definition select_audio_url ::
    "sb_error option \<Rightarrow> string \<Rightarrow> string \<Rightarrow> backend \<Rightarrow> (sb_error + string) \<times> backend" where
  "select_audio_url fault uid rid be =
     (case fault of
        Some e \<Rightarrow> (Inl e, called (SelectAudioUrl rid) be)
      | None \<Rightarrow>
          (case single (filter (\<lambda>r. row_id r = rid \<and> row_user_id r = uid) (recordings_table be)) of
             Inl e \<Rightarrow> (Inl e, called (SelectAudioUrl rid) be)
           | Inr r \<Rightarrow> (Inr (row_audio_url r), called (SelectAudioUrl rid) be)))"

text \<open>\<open>from('recordings').delete().eq('id', id)\<close>, on the caller's own rows.\<close>

definition delete_recording ::
    "sb_error option \<Rightarrow> string \<Rightarrow> string \<Rightarrow> backend \<Rightarrow> sb_error option \<times> backend" where
  "delete_recording fault uid rid be =
     (case fault of
        Some e \<Rightarrow> (Some e, called (DeleteRecording rid) be)
      | None \<Rightarrow>
          (None, called (DeleteRecording rid)
             (be\<lparr> recordings_table :=
                    filter (\<lambda>r. \<not> (row_id r = rid \<and> row_user_id r = uid)) (recordings_table be) \<rparr>)))"

text \<open>\<open>storage.from('recordings').upload(key, blob, {upsert: false})\<close>: an existing key is refused.\<close>

definition storage_upload ::
    "sb_error option \<Rightarrow> string \<Rightarrow> blob \<Rightarrow> backend \<Rightarrow> sb_error option \<times> backend" where
  "storage_upload fault key b be =
     (case fault of
        Some e \<Rightarrow> (Some e, called (StorageUpload key) be)
      | None \<Rightarrow>
          (case bucket be key of
             Some old \<Rightarrow> (Some resource_exists_error, called (StorageUpload key) be)
           | None \<Rightarrow> (None, called (StorageUpload key) (be\<lparr> bucket := (bucket be)(key \<mapsto> b) \<rparr>))))"

text \<open>\<open>storage.from('recordings').getPublicUrl(key)\<close>: a string built locally, no network call.\<close>

definition getPublicUrl :: "string \<Rightarrow> string" where
  "getPublicUrl key = supabaseUrl @ ''/storage/v1/object/public/recordings/'' @ key"

text \<open>\<open>storage.from('recordings').remove([key])\<close>; removing a key that is not there is no error.\<close>

definition storage_remove ::
    "sb_error option \<Rightarrow> string \<Rightarrow> backend \<Rightarrow> sb_error option \<times> backend" where
  "storage_remove fault key be =
     (case fault of
        Some e \<Rightarrow> (Some e, called (StorageRemove key) be)
      | None \<Rightarrow> (None, called (StorageRemove key) (be\<lparr> bucket := (bucket be)(key := None) \<rparr>)))"

section \<open>context/AuthContext.tsx\<close>

text \<open>
  The provider's state: the signed-in user (\<open>null\<close> and \<open>undefined\<close> are both \<open>None\<close>: the code
  only tests \<open>!user\<close>), the visible list of recordings, and the backend it is connected to.
\<close>

record auth_state =
  user :: "user option"
  recordings :: "recording list"
  backend :: backend

datatype completion = Returned | Threw string

text \<open>The mapping of a row to a \<open>Recording\<close> that both loaders apply.\<close>

definition to_recording :: "db_row \<Rightarrow> recording" where
  "to_recording r = \<lparr> rec_id = row_id r, rec_userId = row_user_id r, rec_title = row_title r,
     rec_date = row_created_at r, rec_audioUrl = row_audio_url r, rec_duration = row_duration r \<rparr>"

text \<open>Decimal digits of a number, as a template literal prints \<open>Date.now()\<close>.\<close>

function string_of_nat :: "nat \<Rightarrow> string" where
  "string_of_nat n =
     (if n < 10 then [''0123456789'' ! n]
      else string_of_nat (n div 10) @ [''0123456789'' ! (n mod 10)])"
  by pat_completeness auto
termination
  by (relation "measure (\<lambda>n. n)") auto

text \<open>
  What the outside world contributes to one \<open>saveRecording\<close>: the reading of \<open>Date.now()\<close>, the
  fault (if any) of each of the three network calls, and the \<open>id\<close> and \<open>created_at\<close> the table
  assigns to the new row.
\<close>

record save_io =
  date_now :: nat
  upload_fault :: "sb_error option"
  insert_fault :: "sb_error option"
  reload_fault :: "sb_error option"
  new_row_id :: string
  db_now :: int

definition saveRecording ::
    "save_io \<Rightarrow> jsstring \<Rightarrow> blob \<Rightarrow> real \<Rightarrow> auth_state \<Rightarrow> completion \<times> auth_state" where
  "saveRecording io title_v audioBlob_v duration_v a =
     (case user a of
        None \<Rightarrow> (Threw ''User not authenticated'', a)
      | Some u \<Rightarrow>
          (let fileName = u_id u @ ''/'' @ string_of_nat (date_now io) @ ''.wav'';
               (uploadError, be1) = storage_upload (upload_fault io) fileName audioBlob_v (backend a)
           in case uploadError of
                Some e \<Rightarrow> (Threw (getErrorMessage e), a\<lparr> backend := be1 \<rparr>)
              | None \<Rightarrow>
                  (let publicUrl = getPublicUrl fileName;
                       (dbError, be2) = insert_recording (insert_fault io) (new_row_id io)
                                          (db_now io) (u_id u) title_v publicUrl duration_v be1
                   in case dbError of
                        Some e \<Rightarrow> (Threw (getErrorMessage e), a\<lparr> backend := be2 \<rparr>)
                      | None \<Rightarrow>
                          (let (recordingsData, be3) =
                                 select_recordings (reload_fault io) (u_id u) be2
                           in case recordingsData of
                                Inl e \<Rightarrow> (Threw (getErrorMessage e), a\<lparr> backend := be3 \<rparr>)
                              | Inr rows \<Rightarrow>
                                  (Returned, a\<lparr> recordings := map to_recording rows,
                                                 backend := be3 \<rparr>)))))"

text \<open>\<open>audio_url.split('/').pop()\<close>: what follows the last \<open>/\<close> (the whole string if there is none).\<close>

definition last_segment :: "string \<Rightarrow> string" where
  "last_segment url = rev (takeWhile (\<lambda>c. c \<noteq> CHR ''/'') (rev url))"

record delete_io =
  fetch_fault :: "sb_error option"
  remove_fault :: "sb_error option"
  delete_fault :: "sb_error option"

definition deleteRecording :: "delete_io \<Rightarrow> string \<Rightarrow> auth_state \<Rightarrow> completion \<times> auth_state" where
  "deleteRecording io rid a =
     (case user a of
        None \<Rightarrow> (Returned, a)
      | Some u \<Rightarrow>
          (let (fetched, be1) = select_audio_url (fetch_fault io) (u_id u) rid (backend a)
           in case fetched of
                Inl e \<Rightarrow> (Threw (getErrorMessage e), a\<lparr> backend := be1 \<rparr>)
              | Inr audio_url \<Rightarrow>
                  (let fileName = last_segment audio_url;
                       (storageError, be2) =
                          (if fileName \<noteq> []
                           then storage_remove (remove_fault io) (u_id u @ ''/'' @ fileName) be1
                           else (None, be1))
                   in case storageError of
                        Some e \<Rightarrow> (Threw (getErrorMessage e), a\<lparr> backend := be2 \<rparr>)
                      | None \<Rightarrow>
                          (let (dbError, be3) = delete_recording (delete_fault io) (u_id u) rid be2
                           in case dbError of
                                Some e \<Rightarrow> (Threw (getErrorMessage e), a\<lparr> backend := be3 \<rparr>)
                              | None \<Rightarrow>
                                  (Returned,
                                   a\<lparr> recordings := filter (\<lambda>rec. rec_id rec \<noteq> rid) (recordings a),
                                      backend := be3 \<rparr>)))))"

text \<open>
  \<open>loadUserData\<close>.  The signed-in identity carries an id, possibly an e-mail address and
  possibly a \<open>username\<close> in its metadata.
\<close>

record auth_user =
  au_id :: string
  au_email :: "string option"
  au_username :: "string option"

record load_io =
  profile_fault :: "sb_error option"
  create_fault :: "sb_error option"
  list_fault :: "sb_error option"

text \<open>\<open>authUser.user_metadata?.username || authUser.email?.split('@')[0] || 'user'\<close>\<close>

definition default_username :: "auth_user \<Rightarrow> string" where
  "default_username au =
     (case au_username au of
        Some n \<Rightarrow> if n \<noteq> [] then n else
          (case au_email au of
             Some m \<Rightarrow> if takeWhile (\<lambda>c. c \<noteq> CHR ''@'') m \<noteq> []
                       then takeWhile (\<lambda>c. c \<noteq> CHR ''@'') m else ''user''
           | None \<Rightarrow> ''user'')
      | None \<Rightarrow>
          (case au_email au of
             Some m \<Rightarrow> if takeWhile (\<lambda>c. c \<noteq> CHR ''@'') m \<noteq> []
                       then takeWhile (\<lambda>c. c \<noteq> CHR ''@'') m else ''user''
           | None \<Rightarrow> ''user''))"

text \<open>The \<open>catch\<close> of \<open>loadUserData\<close>: sign out, clear the user and the list.\<close>

definition load_failed :: "backend \<Rightarrow> auth_state \<Rightarrow> auth_state" where
  "load_failed be a = a\<lparr> user := None, recordings := [], backend := called SignOut be \<rparr>"

definition loadUserData :: "load_io \<Rightarrow> auth_user \<Rightarrow> auth_state \<Rightarrow> auth_state" where
  "loadUserData io authUser a =
     (let (userData, be1) = select_user (profile_fault io) (au_id authUser) (backend a)
      in case userData of
           Inl userError \<Rightarrow>
             if err_code userError = ''PGRST116'' then
               (let (newUser, be2) =
                      insert_user (create_fault io) (au_id authUser) (default_username authUser)
                        (au_email authUser) be1
                in case newUser of
                     Inl insertError \<Rightarrow> load_failed be2 a
                   | Inr nu \<Rightarrow> a\<lparr> user := Some nu, backend := be2 \<rparr>)
             else load_failed be1 a
         | Inr ud \<Rightarrow>
             (let (recordingsData, be2) = select_recordings (list_fault io) (u_id ud) be1
              in case recordingsData of
                   Inl recordingsError \<Rightarrow> load_failed be2 (a\<lparr> user := Some ud \<rparr>)
                 | Inr rows \<Rightarrow>
                     a\<lparr> user := Some ud, recordings := map to_recording rows, backend := be2 \<rparr>))"

section \<open>components/SaveRecordingModal.tsx\<close>

record modal_state =
  title :: jsstring
  isSaving :: bool
  error :: "string option"

text \<open>
  \<open>handleSave\<close>.  The result is the dialog's state, the provider's state and whether \<open>onSaved\<close>
  was called.
\<close>

definition handleSave ::
    "save_io \<Rightarrow> blob \<Rightarrow> real \<Rightarrow> modal_state \<times> auth_state \<Rightarrow> modal_state \<times> auth_state \<times> bool" where
  "handleSave io audioBlob_v duration_v ma =
     (case ma of (m, a) \<Rightarrow>
        if trim (title m) = [] then
          (m\<lparr> error := Some ''Please enter a title for your recording'' \<rparr>, a, False)
        else
          (case saveRecording io (title m) audioBlob_v duration_v a of
             (Returned, a') \<Rightarrow> (m\<lparr> isSaving := False, error := None \<rparr>, a', True)
           | (Threw msg, a') \<Rightarrow> (m\<lparr> isSaving := False, error := Some msg \<rparr>, a', False)))"

section \<open>components/Dashboard.tsx\<close>

text \<open>
  The order in which the list is shown.  \<open>new Date(date).getTime()\<close> is the instant in
  milliseconds.  \<open>Array.prototype.sort\<close> with a comparator is stable: \<open>a\<close> stays in front of a
  later \<open>b\<close> unless the comparator is positive.  \<open>toLowerCase\<close> is a parameter; \<open>includes\<close> is
  the test for a contiguous run of code units.
\<close>

definition getTime :: "int \<Rightarrow> int" where
  "getTime date = date div 1000"

fun sort_insert :: "('a \<Rightarrow> 'a \<Rightarrow> int) \<Rightarrow> 'a \<Rightarrow> 'a list \<Rightarrow> 'a list" where
  "sort_insert cmp x [] = [x]"
| "sort_insert cmp x (y # ys) =
     (if cmp x y \<le> 0 then x # y # ys else y # sort_insert cmp x ys)"

definition Array_sort :: "('a \<Rightarrow> 'a \<Rightarrow> int) \<Rightarrow> 'a list \<Rightarrow> 'a list" where
  "Array_sort cmp xs = foldr (sort_insert cmp) xs []"

definition filteredRecordings ::
    "(jsstring \<Rightarrow> jsstring) \<Rightarrow> jsstring \<Rightarrow> recording list \<Rightarrow> recording list" where
  "filteredRecordings toLowerCase searchTerm_v recs =
     filter (\<lambda>r. sublist (toLowerCase searchTerm_v) (toLowerCase (rec_title r))) recs"

definition sortedRecordings ::
    "(jsstring \<Rightarrow> jsstring) \<Rightarrow> jsstring \<Rightarrow> recording list \<Rightarrow> recording list" where
  "sortedRecordings toLowerCase searchTerm_v recs =
     Array_sort (\<lambda>a b. getTime (rec_date b) - getTime (rec_date a))
       (filteredRecordings toLowerCase searchTerm_v recs)"

text \<open>Newest first, by the stored instant and by the millisecond the dashboard compares.\<close>

definition newest_first :: "recording list \<Rightarrow> bool" where
  "newest_first rs = sorted_wrt (\<lambda>a b. rec_date b \<le> rec_date a) rs"

definition newest_first_ms :: "recording list \<Rightarrow> bool" where
  "newest_first_ms rs = sorted_wrt (\<lambda>a b. getTime (rec_date b) \<le> getTime (rec_date a)) rs"

text \<open>
  Playback from the list.  The component keeps \<open>currentlyPlaying\<close> and the audio element
  created for each recording id; the browser keeps the elements themselves: for each one its
  source, whether it is playing, and its \<open>ended\<close> listener, which belongs to the mount of the
  component that created it.  \<open>audio_log\<close> lists the \<open>pause()\<close> and \<open>play()\<close> calls in the order
  they were made.
\<close>

datatype audio_call = PauseCall nat | PlayCall nat

record dashboard_state =
  currentlyPlaying :: "string option"
  audioElements :: "string \<rightharpoonup> nat"
  mount :: nat
  element_playing :: "nat set"
  element_src :: "nat \<rightharpoonup> string"
  element_mount :: "nat \<rightharpoonup> nat"
  next_element :: nat
  audio_log :: "audio_call list"

definition init_dashboard :: dashboard_state where
  "init_dashboard = \<lparr> currentlyPlaying = None, audioElements = Map.empty, mount = 0,
     element_playing = {}, element_src = Map.empty, element_mount = Map.empty,
     next_element = 0, audio_log = [] \<rparr>"

definition pause_element :: "nat \<Rightarrow> dashboard_state \<Rightarrow> dashboard_state" where
  "pause_element h s = s\<lparr> element_playing := element_playing s - {h},
                          audio_log := audio_log s @ [PauseCall h] \<rparr>"

definition play_element :: "nat \<Rightarrow> dashboard_state \<Rightarrow> dashboard_state" where
  "play_element h s = s\<lparr> element_playing := insert h (element_playing s),
                         audio_log := audio_log s @ [PlayCall h] \<rparr>"

text \<open>
  \<open>playRecording\<close>.  The first test is \<open>currentlyPlaying && audioElements[currentlyPlaying]\<close>:
  \<open>null\<close> and the empty string are falsy.
\<close>

definition playRecording :: "string \<Rightarrow> string \<Rightarrow> dashboard_state \<Rightarrow> dashboard_state" where
  "playRecording rid url s =
     (let s1 = (case currentlyPlaying s of
                  None \<Rightarrow> s
                | Some c \<Rightarrow>
                    if c \<noteq> [] then
                      (case audioElements s c of
                         None \<Rightarrow> s
                       | Some h \<Rightarrow> pause_element h s)
                    else s)
      in if currentlyPlaying s = Some rid then s1\<lparr> currentlyPlaying := None \<rparr>
         else
           (case audioElements s rid of
              Some audioElement \<Rightarrow>
                (play_element audioElement s1)\<lparr> currentlyPlaying := Some rid \<rparr>
            | None \<Rightarrow>
                (let audioElement = next_element s + 1;
                     s2 = s1\<lparr> element_src := (element_src s1)(audioElement \<mapsto> url),
                              element_mount := (element_mount s1)(audioElement \<mapsto> mount s),
                              next_element := next_element s + 1,
                              audioElements := (audioElements s1)(rid \<mapsto> audioElement) \<rparr>
                 in (play_element audioElement s2)\<lparr> currentlyPlaying := Some rid \<rparr>)))"

text \<open>
  An element that plays to its end stops playing and its \<open>ended\<close> listener calls
  \<open>setCurrentlyPlaying(null)\<close> of the mount that created it; on a component that is no longer
  mounted the call has no effect.
\<close>

definition ended :: "nat \<Rightarrow> dashboard_state \<Rightarrow> dashboard_state" where
  "ended h s =
     (if h \<in> element_playing s
      then (if element_mount s h = Some (mount s)
            then s\<lparr> element_playing := element_playing s - {h}, currentlyPlaying := None \<rparr>
            else s\<lparr> element_playing := element_playing s - {h} \<rparr>)
      else s)"

text \<open>
  \<open>App\<close> renders \<open>Dashboard\<close> only while \<open>showRecorder\<close> is false.  Opening the recorder unmounts
  it and coming back mounts it anew, with every \<open>useState\<close> at its initial value.  \<open>Dashboard\<close>
  has no effect cleanup, so the audio elements it created are left as they are.
\<close>

definition remount :: "dashboard_state \<Rightarrow> dashboard_state" where
  "remount s = s\<lparr> currentlyPlaying := None, audioElements := Map.empty, mount := mount s + 1 \<rparr>"

datatype dashboard_event = PlayClick string string | Ended nat | Remounted

fun dashboard_step :: "dashboard_state \<Rightarrow> dashboard_event \<Rightarrow> dashboard_state" where
  "dashboard_step s (PlayClick rid url) = playRecording rid url s"
| "dashboard_step s (Ended h) = ended h s"
| "dashboard_step s Remounted = remount s"

definition dashboard_run :: "dashboard_state \<Rightarrow> dashboard_event list \<Rightarrow> dashboard_state" where
  "dashboard_run s evs = foldl dashboard_step s evs"

text \<open>
  A concrete run: recording \<open>r1\<close> is started from the list, then the recorder is opened and
  closed again.
\<close>

definition back_on_dashboard :: dashboard_state where
  "back_on_dashboard = dashboard_run init_dashboard
     [PlayClick ''r1'' ''https://cdn.example.org/u1/5.wav'', Remounted]"

section \<open>components/WaveformVisualizer.tsx\<close>

text \<open>
  The canvas calls of one \<open>draw\<close>, in order.  Canvas dimensions are the integer attributes
  \<open>canvas.width\<close> and \<open>canvas.height\<close>; coordinates are numbers, modelled as reals.  The sample
  buffer is the \<open>Uint8Array\<close> of length \<open>bufferLength\<close> that \<open>getByteTimeDomainData\<close> fills.
\<close>

datatype canvas_call =
    ClearRect real real real real
  | SetLineWidth real
  | SetStrokeStyle string
  | SetShadowBlur real
  | SetShadowColor string
  | BeginPath
  | MoveTo real real
  | LineTo real real
  | Stroke

text \<open>The \<open>for\<close> loop of \<open>draw\<close>, from index \<open>i\<close> with the running abscissa \<open>x\<close>.\<close>

function draw_loop :: "real \<Rightarrow> nat \<Rightarrow> byte list \<Rightarrow> nat \<Rightarrow> real \<Rightarrow> canvas_call list" where
  "draw_loop sliceWidth height dataArray i x =
     (if i < length dataArray then
        (let v = real (unat (dataArray ! i)) / 128.0;
             y = v * (real height / 2)
         in (if i = 0 then MoveTo x y else LineTo x y)
            # draw_loop sliceWidth height dataArray (i + 1) (x + sliceWidth))
      else [])"
  by pat_completeness auto
termination
  by (relation "measure (\<lambda>(sliceWidth, height, dataArray, i, x). length dataArray - i)") auto

definition draw_calls :: "nat \<Rightarrow> nat \<Rightarrow> byte list \<Rightarrow> canvas_call list" where
  "draw_calls width height dataArray =
     (let bufferLength = length dataArray;
          sliceWidth = real width / real bufferLength
      in [ClearRect 0 0 (real width) (real height),
          SetLineWidth 2,
          SetStrokeStyle ''rgb(102, 217, 232)'',
          SetShadowBlur 10,
          SetShadowColor ''rgb(102, 217, 232)'',
          BeginPath]
         @ draw_loop sliceWidth height dataArray 0 0
         @ [LineTo (real width) (real height / 2), Stroke])"

text \<open>The point the loop plots for sample \<open>i\<close>, as the specification words it.\<close>

definition sample_point :: "nat \<Rightarrow> nat \<Rightarrow> byte list \<Rightarrow> nat \<Rightarrow> real \<times> real" where
  "sample_point width height dataArray i =
     (real i * (real width / real (length dataArray)),
      (real (unat (dataArray ! i)) / 128) * (real height / 2))"

definition path_call :: "nat \<Rightarrow> real \<times> real \<Rightarrow> canvas_call" where
  "path_call i p = (if i = 0 then MoveTo (fst p) (snd p) else LineTo (fst p) (snd p))"













section \<open>Concrete states used as examples\<close>

definition alice :: user where
  "alice = \<lparr> u_id = ''u1'', u_username = ''alice'', u_email = ''alice@example.org'' \<rparr>"

definition stored_row :: db_row where
  "stored_row = \<lparr> row_id = ''r1'', row_user_id = ''u1'', row_title = [0x4D, 0x65, 0x6D, 0x6F],
     row_audio_url = getPublicUrl ''u1/5.wav'', row_duration = 2.5, row_created_at = 1000 \<rparr>"

definition example_backend :: backend where
  "example_backend = \<lparr> users_table = [alice], recordings_table = [stored_row],
     bucket = [''u1/5.wav'' \<mapsto> [1, 2]], calls = [] \<rparr>"

definition example_auth :: auth_state where
  "example_auth = \<lparr> user = Some alice, recordings = [to_recording stored_row],
     backend = example_backend \<rparr>"

definition storage_down :: sb_error where
  "storage_down = \<lparr> err_code = [], err_message = ''Bad Gateway'', err_description = [],
     err_error = [] \<rparr>"

definition removal_fails :: delete_io where
  "removal_fails = \<lparr> fetch_fault = None, remove_fault = Some storage_down, delete_fault = None \<rparr>"

definition no_delete_faults :: delete_io where
  "no_delete_faults = \<lparr> fetch_fault = None, remove_fault = None, delete_fault = None \<rparr>"

definition example_save :: save_io where
  "example_save = \<lparr> date_now = 17, upload_fault = None, insert_fault = None, reload_fault = None,
     new_row_id = ''r2'', db_now = 2000 \<rparr>"

definition no_load_faults :: load_io where
  "no_load_faults = \<lparr> profile_fault = None, create_fault = None, list_fault = None \<rparr>"

definition alice_identity :: auth_user where
  "alice_identity = \<lparr> au_id = ''u1'', au_email = Some ''alice@example.org'', au_username = None \<rparr>"

definition blank_modal :: modal_state where
  "blank_modal = \<lparr> title = [0x20, 0x09, 0xA0], isSaving = False, error = None \<rparr>"

definition saved_row :: db_row where
  "saved_row = \<lparr> row_id = ''r2'', row_user_id = ''u1'', row_title = [0x54, 0x65, 0x73, 0x74],
     row_audio_url = getPublicUrl ''u1/17.wav'', row_duration = 3, row_created_at = 2000 \<rparr>"

definition be_uploaded :: backend where
  "be_uploaded = \<lparr> users_table = [alice], recordings_table = [stored_row],
     bucket = [''u1/5.wav'' \<mapsto> [1, 2], ''u1/17.wav'' \<mapsto> [7, 8, 9]],
     calls = [StorageUpload ''u1/17.wav''] \<rparr>"

definition be_inserted :: backend where
  "be_inserted = \<lparr> users_table = [alice], recordings_table = [stored_row, saved_row],
     bucket = [''u1/5.wav'' \<mapsto> [1, 2], ''u1/17.wav'' \<mapsto> [7, 8, 9]],
     calls = [StorageUpload ''u1/17.wav'', InsertRecording ''u1''] \<rparr>"

definition saved_auth :: auth_state where
  "saved_auth = \<lparr> user = Some alice,
     recordings = [to_recording saved_row, to_recording stored_row],
     backend = be_inserted\<lparr> calls := [StorageUpload ''u1/17.wav'', InsertRecording ''u1'',
                                        SelectRecordings ''u1''] \<rparr> \<rparr>"


section \<open>Properties of the capture session\<close>

lemma app_inv_init: "app_inv init_app"
  by (simp add: app_inv_def init_app_def)

lemma app_inv_handler: "app_inv s \<Longrightarrow> forward_event e \<Longrightarrow> app_inv (app_handler s e)"
proof (cases e)
  case ClickRecord
  assume "app_inv s"
  then show ?thesis using ClickRecord
    by (auto simp: app_inv_def record_button_onClick_def stopRecording_def startRecording_def
          clear_timerRef_def
          split: sum.splits option.splits recorder_phase.splits if_splits prod.splits)
next
  case (MicResolved g)
  assume "app_inv s"
  then show ?thesis using MicResolved
    by (auto simp: app_inv_def getUserMedia_resolved_def startRecording_resumed_def Let_def
          split: sum.splits if_splits)
next
  case (DataAvailable r d)
  assume "app_inv s"
  then show ?thesis using DataAvailable
    by (auto simp: app_inv_def ondataavailable_def
          split: option.splits recorder_phase.splits prod.splits)
next
  case (StopEvent r u)
  assume "app_inv s"
  then show ?thesis using StopEvent
    by (auto simp: app_inv_def onstop_def split: option.splits recorder_phase.splits prod.splits)
next
  case (TimerFire t)
  assume "app_inv s"
  then show ?thesis using TimerFire
    by (auto simp: app_inv_def timer_fire_def split: option.splits)
next
  case (ClockChange d)
  assume "app_inv s" "forward_event e"
  then show ?thesis using ClockChange
    by (fastforce simp: app_inv_def)
next
  case Saved
  assume "app_inv s"
  then show ?thesis using Saved by (simp add: app_inv_def onSaved_def)
qed

lemma app_inv_cleanup: "app_inv s' \<Longrightarrow> app_inv (audioUrl_cleanup s s')"
  by (auto simp: app_inv_def audioUrl_cleanup_def clear_timerRef_def
           split: option.splits if_splits)

lemma app_inv_step: "app_inv s \<Longrightarrow> forward_event e \<Longrightarrow> app_inv (app_step s e)"
  by (simp add: app_step_def app_inv_cleanup app_inv_handler)

lemma app_inv_run:
  "app_inv s \<Longrightarrow> \<forall>e\<in>set evs. forward_event e \<Longrightarrow> app_inv (app_run s evs)"
  unfolding app_run_def
  by (induction evs arbitrary: s) (simp_all add: app_inv_step)

lemma app_run_append: "app_run s (xs @ ys) = app_run (app_run s xs) ys"
  by (simp add: app_run_def)

lemma app_run_Cons: "app_run s (e # evs) = app_run (app_step s e) evs"
  by (simp add: app_run_def)

lemma app_run_Nil: "app_run s [] = s"
  by (simp add: app_run_def)

lemma delivered_append: "delivered r (xs @ ys) = delivered r xs @ delivered r ys"
  by (induction r xs rule: delivered.induct) auto

lemma audioUrl_cleanup_same: "audioUrl s' = audioUrl s \<Longrightarrow> audioUrl_cleanup s s' = s'"
  by (simp add: audioUrl_cleanup_def)

lemma audioUrl_cleanup_fields:
  "audioChunksRef (audioUrl_cleanup s s') = audioChunksRef s'"
  "recorders (audioUrl_cleanup s s') = recorders s'"
  "isRecording (audioUrl_cleanup s s') = isRecording s'"
  "mediaRecorderRef (audioUrl_cleanup s s') = mediaRecorderRef s'"
  "timerRef (audioUrl_cleanup s s') = timerRef s'"
  "audioBlob (audioUrl_cleanup s s') = audioBlob s'"
  "audioUrl (audioUrl_cleanup s s') = audioUrl s'"
  "showSaveModal (audioUrl_cleanup s s') = showSaveModal s'"
  "recordingTime (audioUrl_cleanup s s') = recordingTime s'"
  "next_handle (audioUrl_cleanup s s') = next_handle s'"
  "pending_requests (audioUrl_cleanup s s') = pending_requests s'"
  by (simp_all add: audioUrl_cleanup_def)

lemma session_step_frame:
  assumes "session_event r e" "recorders s r = Some (ph, st)" "ph \<noteq> Finished"
  shows "audioChunksRef (app_step s e) = audioChunksRef s @ filter (\<lambda>d. d \<noteq> []) (delivered r [e])
       \<and> recorders (app_step s e) = recorders s
       \<and> isRecording (app_step s e) = isRecording s
       \<and> mediaRecorderRef (app_step s e) = mediaRecorderRef s
       \<and> timerRef (app_step s e) = timerRef s
       \<and> intervals (app_step s e) = intervals s
       \<and> audioBlob (app_step s e) = audioBlob s
       \<and> audioUrl (app_step s e) = audioUrl s
       \<and> showSaveModal (app_step s e) = showSaveModal s"
proof -
  have u: "audioUrl (app_handler s e) = audioUrl s"
    using assms
    by (cases e)
       (auto simp: ondataavailable_def timer_fire_def split: option.splits recorder_phase.splits)
  have "app_step s e = app_handler s e"
    unfolding app_step_def by (rule audioUrl_cleanup_same[OF u])
  then show ?thesis
    using assms
    by (cases e)
       (auto simp: ondataavailable_def timer_fire_def split: option.splits recorder_phase.splits)
qed

lemma session_run_frame:
  assumes "\<forall>e\<in>set evs. session_event r e" "recorders s r = Some (ph, st)" "ph \<noteq> Finished"
  shows "audioChunksRef (app_run s evs) = audioChunksRef s @ filter (\<lambda>d. d \<noteq> []) (delivered r evs)
       \<and> recorders (app_run s evs) = recorders s
       \<and> isRecording (app_run s evs) = isRecording s
       \<and> mediaRecorderRef (app_run s evs) = mediaRecorderRef s
       \<and> timerRef (app_run s evs) = timerRef s
       \<and> intervals (app_run s evs) = intervals s
       \<and> audioBlob (app_run s evs) = audioBlob s
       \<and> audioUrl (app_run s evs) = audioUrl s
       \<and> showSaveModal (app_run s evs) = showSaveModal s"
  using assms
proof (induction evs arbitrary: s)
  case Nil
  then show ?case by (simp add: app_run_Nil)
next
  case (Cons e evs)
  have e: "session_event r e" using Cons.prems by simp
  note f = session_step_frame[OF e Cons.prems(2) Cons.prems(3)]
  have r': "recorders (app_step s e) r = Some (ph, st)" using f Cons.prems by simp
  have "\<forall>e\<in>set evs. session_event r e" using Cons.prems by simp
  note ih = Cons.IH[OF this r' Cons.prems(3)]
  have d: "delivered r (e # evs) = delivered r [e] @ delivered r evs"
    using delivered_append[of r "[e]" evs] by simp
  show ?case unfolding app_run_Cons using ih f d by simp
qed

text \<open>A click while idle followed by the grant of its request: the session is started.\<close>

lemma session_started:
  assumes "\<not> isRecording s0"
  defines "s1 \<equiv> app_run s0 [ClickRecord, MicResolved (Inr ())]"
  shows "mediaRecorderRef s1 = Some (next_handle s0 + 2)" "audioChunksRef s1 = []"
        "recorders s1 (next_handle s0 + 2) = Some (Capturing, next_handle s0 + 1)"
        "isRecording s1" "timerRef s1 = Some (next_handle s0 + 4)" "audioUrl s1 = None"
proof -
  have a: "app_step s0 ClickRecord = s0\<lparr> pending_requests := pending_requests s0 + 1 \<rparr>"
    using assms(1)
    by (simp add: app_step_def audioUrl_cleanup_def record_button_onClick_def startRecording_def)
  have "s1 = app_step (app_step s0 ClickRecord) (MicResolved (Inr ()))"
    by (simp add: s1_def app_run_def)
  then have b: "s1 = app_step (s0\<lparr> pending_requests := pending_requests s0 + 1 \<rparr>)
                       (MicResolved (Inr ()))"
    by (simp only: a)
  show "mediaRecorderRef s1 = Some (next_handle s0 + 2)" "audioChunksRef s1 = []"
        "recorders s1 (next_handle s0 + 2) = Some (Capturing, next_handle s0 + 1)"
        "isRecording s1" "timerRef s1 = Some (next_handle s0 + 4)" "audioUrl s1 = None"
    by (simp_all add: b app_step_def audioUrl_cleanup_fields getUserMedia_resolved_def
          startRecording_resumed_def Let_def)
qed

lemma concat_nonempty_pos:
  "(0 < length (concat (filter (\<lambda>d. d \<noteq> []) xs))) = (\<exists>d\<in>set xs. d \<noteq> [])"
  by (induction xs) auto

lemma first_session_recording_fields:
  "isRecording first_session_recording" "audioChunksRef first_session_recording = []"
  "mediaRecorderRef first_session_recording = Some 2"
  "timerRef first_session_recording = Some 4"
  "next_handle first_session_recording = 4"
  "recorders first_session_recording 2 = Some (Capturing, 1)"
  "intervals first_session_recording 4 = Some 0"
  "pending_requests first_session_recording = 1"
  "audioUrl first_session_recording = None" "clock first_session_recording = 0"
  by (simp_all add: first_session_recording_def app_run_def app_step_def audioUrl_cleanup_def
        init_app_def record_button_onClick_def startRecording_def getUserMedia_resolved_def
        startRecording_resumed_def Let_def)

text \<open>
  C10.  \<open>stopRecording\<close> when no recording is in progress (the flag is false, or there is no
  recorder) returns normally with the state exactly as it was: no recorder is told to stop,
  so no \<open>stop\<close> event and no artifact follow, and no timer is cleared.
\<close>

theorem stopRecording_idle_noop:
  "\<not> isRecording s \<or> mediaRecorderRef s = None \<Longrightarrow> stopRecording s = Inr s"
  by (auto simp: stopRecording_def split: option.splits)

theorem stopRecording_idle_noop_witness:
  "stopRecording init_app = Inr init_app
   \<and> stopRecording (init_app\<lparr> mediaRecorderRef := Some 2 \<rparr>)
       = Inr (init_app\<lparr> mediaRecorderRef := Some 2 \<rparr>)"
  using stopRecording_idle_noop[of init_app]
        stopRecording_idle_noop[of "init_app\<lparr> mediaRecorderRef := Some 2 \<rparr>"]
  by (simp add: init_app_def)

text \<open>
  The button's own protection: while \<open>isRecording\<close> is true a click runs \<open>stopRecording\<close> and
  starts nothing.
\<close>

lemma click_while_recording:
  assumes "isRecording s"
  shows "record_button_onClick s = stopRecording s
       \<and> pending_requests (app_step s ClickRecord) = pending_requests s
       \<and> mediaRecorderRef (app_step s ClickRecord) = mediaRecorderRef s
       \<and> audioChunksRef (app_step s ClickRecord) = audioChunksRef s
       \<and> timerRef (app_step s ClickRecord) = timerRef s
       \<and> next_handle (app_step s ClickRecord) = next_handle s"
proof -
  have u: "audioUrl (app_handler s ClickRecord) = audioUrl s"
    using assms
    by (auto simp: record_button_onClick_def stopRecording_def
             split: option.splits recorder_phase.splits prod.splits)
  have "app_step s ClickRecord = app_handler s ClickRecord"
    unfolding app_step_def by (rule audioUrl_cleanup_same[OF u])
  then show ?thesis
    using assms
    by (auto simp: record_button_onClick_def stopRecording_def
             split: option.splits recorder_phase.splits prod.splits)
qed

text \<open>
  C2.  The code does not keep the claim.  The button chooses between start and stop by
  \<open>isRecording\<close>, which turns true only when a request is granted, so two clicks before the
  first grant both call \<open>startRecording\<close>.  After the first grant a session is Recording, with
  recorder \<open>2\<close> and timer \<open>4\<close>, and the second request is still outstanding.  When that one is
  granted, the body of \<open>startRecording\<close> runs a second time, unguarded: the recorder reference
  and the timer handle are overwritten, the chunk buffer is reset, the first recorder is still
  capturing with nothing left to stop it, and the first timer is still live.
\<close>

theorem second_start_replaces_session:
  "isRecording first_session_recording
   \<and> pending_requests first_session_recording = 1
   \<and> mediaRecorderRef first_session_recording = Some 2
   \<and> timerRef first_session_recording = Some 4
   \<and> mediaRecorderRef (app_step first_session_recording (MicResolved (Inr ()))) = Some 6
   \<and> timerRef (app_step first_session_recording (MicResolved (Inr ()))) = Some 8
   \<and> recorders (app_step first_session_recording (MicResolved (Inr ()))) 2 = Some (Capturing, 1)
   \<and> intervals (app_step first_session_recording (MicResolved (Inr ()))) 4 = Some 0
   \<and> intervals (app_step first_session_recording (MicResolved (Inr ()))) 8 = Some 0"
  by (simp add: first_session_recording_fields app_step_def audioUrl_cleanup_def
        getUserMedia_resolved_def startRecording_resumed_def Let_def)

lemma empty_session_value:
  "audioBlob empty_session_example = Some []" "showSaveModal empty_session_example"
  by (simp_all add: empty_session_example_def app_run_def app_step_def audioUrl_cleanup_def
        init_app_def record_button_onClick_def startRecording_def getUserMedia_resolved_def
        startRecording_resumed_def stopRecording_def ondataavailable_def onstop_def
        clear_timerRef_def new_Blob_def Let_def)

lemma stream_ended_value:
  "audioBlob stream_ended_example = Some [1, 2]" "showSaveModal stream_ended_example"
  "isRecording stream_ended_example"
  by (simp_all add: stream_ended_example_def app_run_def app_step_def audioUrl_cleanup_def
        init_app_def record_button_onClick_def startRecording_def getUserMedia_resolved_def
        startRecording_resumed_def ondataavailable_def onstop_def
        clear_timerRef_def new_Blob_def Let_def)

lemma clock_set_back_value:
  "audioBlob clock_set_back_example = Some [1, 2]"
  "recordingTime clock_set_back_example = - 2 / 5"
  by (simp_all add: clock_set_back_example_def app_run_def app_step_def audioUrl_cleanup_def
        init_app_def record_button_onClick_def startRecording_def getUserMedia_resolved_def
        startRecording_resumed_def stopRecording_def ondataavailable_def onstop_def
        timer_fire_def clear_timerRef_def new_Blob_def Let_def)

text \<open>
  C5, as stated, fails in three ways.  A session in which the recorder delivers no chunk of
  positive size still ends with an artifact, the empty blob, and the save dialog opens.  A
  session whose stream ends by itself while recording (the failure case) gets the recorder's
  \<open>stop\<close> event like any other: an artifact is built from the chunks and the save dialog opens.
  And when the clock is set back during a session, the duration the artifact is saved with is
  negative.
\<close>

theorem capture_artifact_counterexample:
  "audioBlob empty_session_example = Some [] \<and> showSaveModal empty_session_example
   \<and> \<not> 0 < length (the (audioBlob empty_session_example))
   \<and> audioBlob stream_ended_example = Some [1, 2] \<and> showSaveModal stream_ended_example
   \<and> audioBlob clock_set_back_example = Some [1, 2]
   \<and> recordingTime clock_set_back_example < 0"
  by (simp add: empty_session_value stream_ended_value clock_set_back_value)

text \<open>
  C5, amended.  A capture session started from an idle state by a granted request, stopped by
  the record button and completed by the recorder's \<open>stop\<close> event yields one artifact: the
  concatenation, in order, of the chunks of positive size delivered to its recorder.  Its byte
  length is positive exactly when at least one such chunk was delivered; the session's timer
  is cleared; a repeated \<open>stop\<close> event changes nothing.  The elapsed time is not negative when
  it was not negative before and the clock was not set back.  A start whose microphone request
  is rejected sets no artifact, creates no recorder (so no \<open>stop\<close> event can follow), does not
  open the save dialog and leaves the flag false.  There is no failed state while recording:
  when the recorder's \<open>stop\<close> event comes without a stop command, because the stream ended, the
  artifact is built from the chunks delivered so far and the save dialog opens all the same.
\<close>

theorem capture_session_artifact:
  fixes s0 :: app_state
  assumes idle: "\<not> isRecording s0"
      and r: "r = next_handle s0 + 2"
      and pre: "\<forall>e\<in>set pre. session_event r e"
      and post: "\<forall>e\<in>set post. session_event r e"
      and s5: "s5 = app_run s0
                 ([ClickRecord, MicResolved (Inr ())] @ pre @ [ClickRecord] @ post
                    @ [StopEvent r url])"
      and se: "se = app_run s0 ([ClickRecord, MicResolved (Inr ())] @ pre @ [StopEvent r url])"
      and sf: "sf = app_run s0 [ClickRecord, MicResolved (Inl err)]"
  shows "audioBlob s5 = Some (concat (filter (\<lambda>d. d \<noteq> []) (delivered r (pre @ post))))
       \<and> (0 < length (the (audioBlob s5))) = (\<exists>d\<in>set (delivered r (pre @ post)). d \<noteq> [])
       \<and> audioUrl s5 = Some url \<and> showSaveModal s5 \<and> \<not> isRecording s5
       \<and> intervals s5 (next_handle s0 + 4) = None
       \<and> app_step s5 (StopEvent r url') = s5
       \<and> (app_inv s0 \<and> (\<forall>e\<in>set (pre @ post). forward_event e) \<longrightarrow> 0 \<le> recordingTime s5)
       \<and> audioBlob sf = audioBlob s0 \<and> recorders sf = recorders s0
       \<and> showSaveModal sf = showSaveModal s0 \<and> \<not> isRecording sf
       \<and> audioBlob se = Some (concat (filter (\<lambda>d. d \<noteq> []) (delivered r pre)))
       \<and> showSaveModal se \<and> isRecording se"
proof -
  define s1 where "s1 = app_run s0 [ClickRecord, MicResolved (Inr ())]"
  define s2 where "s2 = app_run s1 pre"
  note f1 = session_started[OF idle, folded s1_def, folded r]
  note f2 = session_run_frame[OF pre f1(3), folded s2_def]
  define s3 where "s3 = s2\<lparr> recorders := (recorders s2)(r \<mapsto> (Finalizing, next_handle s0 + 1)),
                          isRecording := False, intervals := clear_timerRef s2 \<rparr>"
  have stop: "stopRecording s2 = Inr s3"
    using f1 f2 by (simp add: stopRecording_def s3_def)
  have s3: "app_step s2 ClickRecord = s3"
    using f1 f2 stop
    by (simp add: app_step_def record_button_onClick_def audioUrl_cleanup_def s3_def)
  have r3: "recorders s3 r = Some (Finalizing, next_handle s0 + 1)"
    by (simp add: s3_def)
  define s4 where "s4 = app_run s3 post"
  note f4 = session_run_frame[OF post r3, folded s4_def]
  have chunks4: "audioChunksRef s4 = filter (\<lambda>d. d \<noteq> []) (delivered r (pre @ post))"
    using f4 f2 f1 by (simp add: s3_def delivered_append)
  have s5': "s5 = app_step s4 (StopEvent r url)"
    unfolding s5 app_run_append s1_def[symmetric] s2_def[symmetric]
    by (simp add: app_run_Cons app_run_Nil s3 s4_def)
  have rec4: "recorders s4 r = Some (Finalizing, next_handle s0 + 1)"
    using f4 r3 by simp
  define s4' where "s4' = onstop r url s4"
  have s5c: "s5 = audioUrl_cleanup s4 s4'"
    by (simp add: s5' app_step_def s4'_def)
  have blob: "audioBlob s5 = Some (concat (filter (\<lambda>d. d \<noteq> []) (delivered r (pre @ post))))"
    using rec4 chunks4 by (simp add: s5c audioUrl_cleanup_fields s4'_def onstop_def new_Blob_def)
  have len: "(0 < length (the (audioBlob s5))) = (\<exists>d\<in>set (delivered r (pre @ post)). d \<noteq> [])"
    unfolding blob using concat_nonempty_pos[of "delivered r (pre @ post)"] by simp
  have time: "app_inv s0 \<and> (\<forall>e\<in>set (pre @ post). forward_event e) \<longrightarrow> 0 \<le> recordingTime s5"
  proof
    assume a: "app_inv s0 \<and> (\<forall>e\<in>set (pre @ post). forward_event e)"
    then have "\<forall>e\<in>set ([ClickRecord, MicResolved (Inr ())] @ pre @ [ClickRecord] @ post
                    @ [StopEvent r url]). forward_event e"
      by auto
    then have "app_inv s5" unfolding s5 using a by (intro app_inv_run) simp
    then show "0 \<le> recordingTime s5" by (simp add: app_inv_def)
  qed
  have int3: "intervals s3 (next_handle s0 + 4) = None"
    using f2 f1 by (simp add: s3_def clear_timerRef_def)
  have int4': "intervals s4' (next_handle s0 + 4) = None"
    using rec4 f4 int3 by (simp add: s4'_def onstop_def)
  have int5: "intervals s5 (next_handle s0 + 4) = None"
    using int4'
    by (auto simp: s5c audioUrl_cleanup_def clear_timerRef_def split: option.splits)
  have rest: "audioUrl s5 = Some url \<and> showSaveModal s5 \<and> \<not> isRecording s5"
    using rec4 f4 by (simp add: s5c audioUrl_cleanup_fields s4'_def onstop_def s3_def)
  have rec5: "recorders s5 r = Some (Finished, next_handle s0 + 1)"
    using rec4 by (simp add: s5c audioUrl_cleanup_fields s4'_def onstop_def)
  have once: "app_step s5 (StopEvent r url') = s5"
    using rec5 by (simp add: app_step_def onstop_def audioUrl_cleanup_def)
  have failed: "audioBlob sf = audioBlob s0 \<and> recorders sf = recorders s0
       \<and> showSaveModal sf = showSaveModal s0 \<and> \<not> isRecording sf"
    using idle
    by (simp add: sf app_run_def app_step_def audioUrl_cleanup_def record_button_onClick_def
          startRecording_def getUserMedia_resolved_def startRecording_resumed_def)
  have se': "se = audioUrl_cleanup s2 (onstop r url s2)"
    unfolding se app_run_append s1_def[symmetric] s2_def[symmetric]
    by (simp add: app_run_Cons app_run_Nil app_step_def)
  have rec2: "recorders s2 r = Some (Capturing, next_handle s0 + 1)"
    using f2 f1 by simp
  have ended: "audioBlob se = Some (concat (filter (\<lambda>d. d \<noteq> []) (delivered r pre)))
       \<and> showSaveModal se \<and> isRecording se"
    using rec2 f2 f1
    by (simp add: se' audioUrl_cleanup_fields onstop_def new_Blob_def)
  show ?thesis using blob len time rest int5 once failed ended by simp
qed

theorem capture_session_artifact_witness:
  "audioBlob (app_run init_app [ClickRecord, MicResolved (Inr ()), ClockChange 2500, TimerFire 4,
       ClickRecord, DataAvailable 2 [1, 2, 3], StopEvent 2 ''blob:a'']) = Some [1, 2, 3]
   \<and> 0 \<le> recordingTime (app_run init_app [ClickRecord, MicResolved (Inr ()), ClockChange 2500,
       TimerFire 4, ClickRecord, DataAvailable 2 [1, 2, 3], StopEvent 2 ''blob:a''])
   \<and> audioBlob (app_run init_app [ClickRecord, MicResolved (Inl NotAllowedError)]) = None
   \<and> audioBlob (app_run init_app [ClickRecord, MicResolved (Inr ()), ClockChange 2500,
       TimerFire 4, StopEvent 2 ''blob:a'']) = Some []"
proof -
  have idle: "\<not> isRecording init_app" by (simp add: init_app_def)
  have r: "(2::nat) = next_handle init_app + 2" by (simp add: init_app_def)
  have pre: "\<forall>e\<in>set [ClockChange 2500, TimerFire 4]. session_event 2 e" by simp
  have post: "\<forall>e\<in>set [DataAvailable 2 [1, 2, 3]]. session_event 2 e" by simp
  note t = capture_session_artifact[of init_app 2 "[ClockChange 2500, TimerFire 4]"
             "[DataAvailable 2 [1, 2, 3]]" _ "''blob:a''" _ _ NotAllowedError
             "''blob:b''", OF idle r pre post refl refl refl]
  have b0: "audioBlob init_app = None" by (simp add: init_app_def)
  have fw: "\<forall>e\<in>set ([ClockChange 2500, TimerFire 4] @ [DataAvailable 2 [1, 2, 3]]).
              forward_event e"
    by simp
  show ?thesis using t b0 fw app_inv_init by simp
qed

section \<open>Properties of saving, loading and deleting\<close>

lemma dropWhile_all_sat:
  "(\<forall>x\<in>set (dropWhile P xs). P x) = (\<forall>x\<in>set xs. P x)"
  by (induction xs) auto

lemma trim_empty_iff: "(trim s = []) = (\<forall>c\<in>set s. is_js_whitespace c)"
  by (simp add: trim_def dropWhile_all_sat)

text \<open>
  C3.  When every code unit of the title is white space (in particular when the title is
  empty), \<open>handleSave\<close> sets the validation message and returns at once: \<open>saveRecording\<close> is
  not called, so the provider's state, with the backend and its list of network calls, is
  exactly what it was; \<open>isSaving\<close> is not touched and \<open>onSaved\<close> is not called.
\<close>

theorem handleSave_blank_title:
  assumes "\<forall>c\<in>set (title m). is_js_whitespace c"
  shows "handleSave io b d (m, a)
           = (m\<lparr> error := Some ''Please enter a title for your recording'' \<rparr>, a, False)"
  using assms by (simp add: handleSave_def trim_empty_iff)

lemma select_recordings_ok:
  "select_recordings None uid be =
     (Inr (sort_key (\<lambda>r. - row_created_at r) (filter (\<lambda>r. row_user_id r = uid) (recordings_table be))),
      called (SelectRecordings uid) be)"
  by (simp add: select_recordings_def)

lemma select_recordings_cases:
  "select_recordings f uid be = (Inr rows, be')
   \<Longrightarrow> rows = sort_key (\<lambda>r. - row_created_at r) (filter (\<lambda>r. row_user_id r = uid) (recordings_table be))
     \<and> be' = called (SelectRecordings uid) be"
  by (auto simp: select_recordings_def split: option.splits)

lemma newest_first_rows:
  "newest_first (map to_recording (sort_key (\<lambda>r. - row_created_at r) xs))"
proof -
  have "sorted (map (\<lambda>r. - row_created_at r) (sort_key (\<lambda>r. - row_created_at r) xs))"
    by (rule sorted_sort_key)
  then show ?thesis
    by (simp add: newest_first_def sorted_wrt_map to_recording_def sorted_map)
qed

lemma saveRecording_Returned:
  assumes "saveRecording io t b d a = (Returned, a')"
  obtains u be1 be2 where
    "user a = Some u"
    "storage_upload (upload_fault io) (u_id u @ ''/'' @ string_of_nat (date_now io) @ ''.wav'') b (backend a) = (None, be1)"
    "insert_recording (insert_fault io) (new_row_id io) (db_now io) (u_id u) t
        (getPublicUrl (u_id u @ ''/'' @ string_of_nat (date_now io) @ ''.wav'')) d be1 = (None, be2)"
    "recordings a' = map to_recording (sort_key (\<lambda>r. - row_created_at r)
         (filter (\<lambda>r. row_user_id r = u_id u) (recordings_table be2)))"
    "backend a' = called (SelectRecordings (u_id u)) be2"
    "user a' = user a"
proof (cases "user a")
  case None
  then show ?thesis using assms by (simp add: saveRecording_def)
next
  case (Some u)
  define fileName where "fileName = u_id u @ ''/'' @ string_of_nat (date_now io) @ ''.wav''"
  obtain uploadError be1 where up: "storage_upload (upload_fault io) fileName b (backend a) = (uploadError, be1)"
    by (cases "storage_upload (upload_fault io) fileName b (backend a)")
  obtain dbError be2 where ins: "insert_recording (insert_fault io) (new_row_id io) (db_now io) (u_id u) t
        (getPublicUrl fileName) d be1 = (dbError, be2)"
    by (cases "insert_recording (insert_fault io) (new_row_id io) (db_now io) (u_id u) t
        (getPublicUrl fileName) d be1")
  obtain recordingsData be3 where sel: "select_recordings (reload_fault io) (u_id u) be2 = (recordingsData, be3)"
    by (cases "select_recordings (reload_fault io) (u_id u) be2")
  have u0: "uploadError = None"
    using assms Some up by (cases uploadError) (simp_all add: saveRecording_def fileName_def)
  have d0: "dbError = None"
    using assms Some up u0 ins
    by (cases dbError) (simp_all add: saveRecording_def fileName_def)
  obtain rows where rows: "recordingsData = Inr rows"
    using assms Some up u0 ins d0 sel
    by (cases recordingsData) (simp_all add: saveRecording_def fileName_def)
  have a': "a' = a\<lparr> recordings := map to_recording rows, backend := be3 \<rparr>"
    using assms Some up u0 ins d0 sel rows
    by (simp add: saveRecording_def fileName_def)
  note sc = select_recordings_cases[OF sel[unfolded rows]]
  show ?thesis
    using that[of u be1 be2] Some up u0 ins d0 a' sc
    by (simp add: fileName_def)
qed


lemma called_tables [simp]:
  "recordings_table (called c be) = recordings_table be"
  "users_table (called c be) = users_table be"
  "bucket (called c be) = bucket be"
  "calls (called c be) = calls be @ [c]"
  by (simp_all add: called_def)

lemma insert_recording_ok:
  "insert_recording f nid now uid t url d be = (None, be')
   \<Longrightarrow> recordings_table be' = recordings_table be @
         [\<lparr> row_id = nid, row_user_id = uid, row_title = t, row_audio_url = url,
            row_duration = d, row_created_at = now \<rparr>]
     \<and> bucket be' = bucket be \<and> users_table be' = users_table be"
  by (auto simp: insert_recording_def split: option.splits if_splits)

lemma storage_upload_ok:
  "storage_upload f key b be = (None, be')
   \<Longrightarrow> bucket be' = (bucket be)(key \<mapsto> b) \<and> recordings_table be' = recordings_table be
     \<and> users_table be' = users_table be \<and> bucket be key = None"
  by (auto simp: storage_upload_def split: option.splits)

lemma single_Inr: "single xs = Inr x \<Longrightarrow> xs = [x]"
  by (auto simp: single_def split: list.splits)

lemma select_user_ok:
  assumes "select_user f uid be = (Inr ud, be')"
  shows "u_id ud = uid \<and> recordings_table be' = recordings_table be"
proof (cases f)
  case (Some e)
  then show ?thesis using assms by (simp add: select_user_def)
next
  case None
  have s: "single (filter (\<lambda>u. u_id u = uid) (users_table be)) = Inr ud"
    using assms None by (simp add: select_user_def)
  have be': "be' = called (SelectUser uid) be"
    using assms None by (simp add: select_user_def)
  have "filter (\<lambda>u. u_id u = uid) (users_table be) = [ud]"
    using s by (rule single_Inr)
  then have "ud \<in> set (filter (\<lambda>u. u_id u = uid) (users_table be))"
    by (simp only: list.set_intros)
  then have "u_id ud = uid" by simp
  then show ?thesis using be' by simp
qed

lemma select_user_tables:
  "select_user f uid be = (res, be') \<Longrightarrow> recordings_table be' = recordings_table be"
  by (auto simp: select_user_def split: option.splits)

lemma insert_user_tables:
  "insert_user f uid n em be = (res, be') \<Longrightarrow> recordings_table be' = recordings_table be"
  by (auto simp: insert_user_def split: option.splits if_splits)

text \<open>What \<open>loadUserData\<close> leaves in the list, by the way it ended.\<close>

lemma loadUserData_recordings:
  assumes "a' = loadUserData io au a"
  shows "(user a' = None \<and> recordings a' = [])
       \<or> (user a' \<noteq> None \<and> recordings a' = recordings a)
       \<or> (user a' \<noteq> None \<and> recordings a' = map to_recording (sort_key (\<lambda>r. - row_created_at r)
              (filter (\<lambda>r. row_user_id r = au_id au) (recordings_table (backend a)))))"
proof -
  obtain userData be1 where su: "select_user (profile_fault io) (au_id au) (backend a) = (userData, be1)"
    by (cases "select_user (profile_fault io) (au_id au) (backend a)")
  show ?thesis
  proof (cases userData)
    case (Inl userError)
    obtain newUser be2 where iu: "insert_user (create_fault io) (au_id au) (default_username au)
            (au_email au) be1 = (newUser, be2)"
      by (cases "insert_user (create_fault io) (au_id au) (default_username au)
            (au_email au) be1")
    show ?thesis
    proof (cases "err_code userError = ''PGRST116''")
      case True
      then show ?thesis unfolding assms loadUserData_def su Inl using iu
        by (cases newUser) (simp_all add: load_failed_def)
    next
      case False
      then show ?thesis unfolding assms loadUserData_def su Inl
        by (simp add: load_failed_def)
    qed
  next
    case (Inr ud)
    note uo = select_user_ok[OF su[unfolded Inr]]
    obtain recordingsData be2 where sr: "select_recordings (list_fault io) (u_id ud) be1 = (recordingsData, be2)"
      by (cases "select_recordings (list_fault io) (u_id ud) be1")
    show ?thesis
    proof (cases recordingsData)
      case (Inl e)
      then show ?thesis using assms su Inr sr by (simp add: loadUserData_def load_failed_def)
    next
      case (Inr rows)
      note sc = select_recordings_cases[OF sr[unfolded Inr]]
      show ?thesis using assms su \<open>userData = Inr ud\<close> sr Inr sc uo
        by (simp add: loadUserData_def)
    qed
  qed
qed

lemma saved_row_listed:
  assumes "recordings_table be = rows @ [\<lparr> row_id = nid, row_user_id = uid, row_title = t,
             row_audio_url = url, row_duration = d, row_created_at = now \<rparr>]"
  shows "\<exists>r\<in>set (map to_recording (sort_key (\<lambda>r. - row_created_at r)
              (filter (\<lambda>r. row_user_id r = uid) (recordings_table be)))).
           rec_title r = t \<and> rec_duration r = d \<and> rec_audioUrl r = url"
proof -
  let ?row = "\<lparr> row_id = nid, row_user_id = uid, row_title = t,
             row_audio_url = url, row_duration = d, row_created_at = now \<rparr>"
  have "?row \<in> set (sort_key (\<lambda>r. - row_created_at r)
              (filter (\<lambda>r. row_user_id r = uid) (recordings_table be)))"
    using assms by simp
  then have "to_recording ?row \<in> set (map to_recording (sort_key (\<lambda>r. - row_created_at r)
              (filter (\<lambda>r. row_user_id r = uid) (recordings_table be))))"
    by simp
  then show ?thesis
    by (rule bexI[rotated]) (simp add: to_recording_def)
qed

text \<open>
  C4.  After \<open>saveRecording\<close> returns normally, the list it has reloaded holds an entry with the
  title and duration that were passed in and with the public URL of the uploaded object; and
  when the owner's data is loaded again from the resulting state without the load failing,
  the list again holds such an entry.
\<close>

theorem save_reload_roundtrip:
  assumes save: "saveRecording io t b d a = (Returned, a')"
      and owner: "user a = Some u"
      and url: "url = getPublicUrl (u_id u @ ''/'' @ string_of_nat (date_now io) @ ''.wav'')"
      and same: "au_id au = u_id u"
      and reload: "a'' = loadUserData lio au a'"
      and ok: "user a'' \<noteq> None"
  shows "(\<exists>r\<in>set (recordings a'). rec_title r = t \<and> rec_duration r = d \<and> rec_audioUrl r = url)
       \<and> (\<exists>r\<in>set (recordings a''). rec_title r = t \<and> rec_duration r = d \<and> rec_audioUrl r = url)"
proof -
  from save obtain u' be1 be2 where
    u': "user a = Some u'" and
    ins: "insert_recording (insert_fault io) (new_row_id io) (db_now io) (u_id u') t
        (getPublicUrl (u_id u' @ ''/'' @ string_of_nat (date_now io) @ ''.wav'')) d be1 = (None, be2)" and
    recs: "recordings a' = map to_recording (sort_key (\<lambda>r. - row_created_at r)
         (filter (\<lambda>r. row_user_id r = u_id u') (recordings_table be2)))" and
    be: "backend a' = called (SelectRecordings (u_id u')) be2"
    by (rule saveRecording_Returned)
  have uu: "u' = u" using u' owner by simp
  have tab: "recordings_table be2 = recordings_table be1 @
         [\<lparr> row_id = new_row_id io, row_user_id = u_id u, row_title = t, row_audio_url = url,
            row_duration = d, row_created_at = db_now io \<rparr>]"
    using insert_recording_ok[OF ins] by (simp add: uu url)
  note listed = saved_row_listed[OF tab]
  have first: "\<exists>r\<in>set (recordings a'). rec_title r = t \<and> rec_duration r = d \<and> rec_audioUrl r = url"
    using listed by (simp only: recs uu)
  have tab': "recordings_table (backend a') = recordings_table be2"
    by (simp add: be)
  have second: "\<exists>r\<in>set (recordings a''). rec_title r = t \<and> rec_duration r = d \<and> rec_audioUrl r = url"
    using loadUserData_recordings[OF reload] ok first listed
    by (auto simp only: tab' same)
  show ?thesis using first second by simp
qed

lemma example_delete_value:
  "deleteRecording removal_fails ''r1'' example_auth =
     (Threw ''Bad Gateway'',
      example_auth\<lparr> backend := example_backend\<lparr> calls := [SelectAudioUrl ''r1'', StorageRemove ''u1/5.wav''] \<rparr> \<rparr>)"
  by (simp add: deleteRecording_def removal_fails_def example_auth_def example_backend_def
        alice_def stored_row_def select_audio_url_def single_def getPublicUrl_def supabaseUrl_def
        last_segment_def storage_remove_def called_def getErrorMessage_def storage_down_def
        errorMessages_def Let_def)

theorem handleSave_blank_title_witness:
  "handleSave example_save [1, 2] 2.5 (blank_modal, example_auth)
     = (blank_modal\<lparr> error := Some ''Please enter a title for your recording'' \<rparr>, example_auth, False)"
proof -
  have "\<forall>c\<in>set (title blank_modal). is_js_whitespace c"
    by (simp add: blank_modal_def is_js_whitespace_def)
  then show ?thesis by (rule handleSave_blank_title)
qed


text \<open>
  C1, as stated, fails: \<open>deleteRecording\<close> throws as soon as the removal of the storage object
  reports an error, before the row is deleted and before the list is filtered.  With one
  stored recording and a storage service that answers \<open>Bad Gateway\<close>, the call throws, the
  recording is still in the visible list and its row is still in the table.
\<close>

theorem delete_storage_failure_counterexample:
  "fst (deleteRecording removal_fails ''r1'' example_auth) = Threw ''Bad Gateway''
   \<and> map rec_id (recordings example_auth) = [''r1'']
   \<and> map rec_id (recordings (snd (deleteRecording removal_fails ''r1'' example_auth))) = [''r1'']
   \<and> map row_id (recordings_table (backend (snd (deleteRecording removal_fails ''r1'' example_auth))))
       = [''r1'']"
  by (simp add: example_delete_value)
     (simp add: example_auth_def example_backend_def to_recording_def stored_row_def)

lemma select_audio_url_cases:
  assumes "select_audio_url f uid rid be = (res, be')"
  shows "be' = called (SelectAudioUrl rid) be
       \<and> (case res of
             Inl e \<Rightarrow> True
           | Inr url \<Rightarrow> f = None \<and>
               (\<exists>r. filter (\<lambda>r. row_id r = rid \<and> row_user_id r = uid) (recordings_table be) = [r]
                    \<and> url = row_audio_url r))"
proof (cases f)
  case (Some e)
  then show ?thesis using assms by (auto simp: select_audio_url_def)
next
  case None
  show ?thesis
  proof (cases "single (filter (\<lambda>r. row_id r = rid \<and> row_user_id r = uid) (recordings_table be))")
    case (Inl e)
    then show ?thesis using assms None by (auto simp: select_audio_url_def)
  next
    case (Inr r)
    note single_Inr[OF Inr]
    then show ?thesis using assms None Inr by (auto simp: select_audio_url_def)
  qed
qed

lemma storage_remove_cases:
  "storage_remove f key be = (res, be')
   \<Longrightarrow> recordings_table be' = recordings_table be \<and> res = f"
  by (auto simp: storage_remove_def split: option.splits)

lemma delete_recording_cases:
  "delete_recording f uid rid be = (res, be')
   \<Longrightarrow> res = f \<and> (f = None \<longrightarrow> recordings_table be' =
             filter (\<lambda>r. \<not> (row_id r = rid \<and> row_user_id r = uid)) (recordings_table be))
     \<and> (f \<noteq> None \<longrightarrow> recordings_table be' = recordings_table be)"
  by (auto simp: delete_recording_def split: option.splits)

text \<open>
  C1, amended.  For a signed-in owner, \<open>deleteRecording\<close> returns normally exactly when the row
  lookup succeeds, the removal of the storage object succeeds where it is attempted (the last
  path segment of the row's URL is not empty) and the row deletion succeeds; it has then
  removed the recording from the visible list and its row from the table.  Otherwise it throws,
  and the visible list and the table are as before.  In particular, when the row is found, its
  URL names an object and the removal of that object fails, the call throws that failure's
  message.
\<close>

theorem deleteRecording_outcomes:
  assumes del: "deleteRecording io rid a = (res, a')"
      and owner: "user a = Some u"
  shows "(res = Returned) =
           (fetch_fault io = None
            \<and> (\<exists>r. filter (\<lambda>r. row_id r = rid \<and> row_user_id r = u_id u)
                       (recordings_table (backend a)) = [r]
                    \<and> (last_segment (row_audio_url r) \<noteq> [] \<longrightarrow> remove_fault io = None))
            \<and> delete_fault io = None)
       \<and> (res = Returned \<longrightarrow>
            recordings a' = filter (\<lambda>rec. rec_id rec \<noteq> rid) (recordings a)
          \<and> recordings_table (backend a') =
              filter (\<lambda>r. \<not> (row_id r = rid \<and> row_user_id r = u_id u)) (recordings_table (backend a)))
       \<and> (res \<noteq> Returned \<longrightarrow>
            recordings a' = recordings a
          \<and> recordings_table (backend a') = recordings_table (backend a))
       \<and> (\<forall>r e. fetch_fault io = None
              \<and> filter (\<lambda>r. row_id r = rid \<and> row_user_id r = u_id u) (recordings_table (backend a)) = [r]
              \<and> last_segment (row_audio_url r) \<noteq> []
              \<and> remove_fault io = Some e
            \<longrightarrow> res = Threw (getErrorMessage e))"
proof -
  let ?rows = "filter (\<lambda>r. row_id r = rid \<and> row_user_id r = u_id u) (recordings_table (backend a))"
  let ?ok = "fetch_fault io = None
            \<and> (\<exists>r. ?rows = [r] \<and> (last_segment (row_audio_url r) \<noteq> [] \<longrightarrow> remove_fault io = None))
            \<and> delete_fault io = None"
  obtain fetched be1 where f: "select_audio_url (fetch_fault io) (u_id u) rid (backend a) = (fetched, be1)"
    by (cases "select_audio_url (fetch_fault io) (u_id u) rid (backend a)")
  note fc = select_audio_url_cases[OF f]
  show ?thesis
  proof (cases fetched)
    case (Inl e)
    have res: "res = Threw (getErrorMessage e)" and a': "a' = a\<lparr> backend := be1 \<rparr>"
      using del owner f Inl by (simp_all add: deleteRecording_def)
    have none: "fetch_fault io = None \<Longrightarrow> ?rows = [r] \<Longrightarrow> False" for r
      using f Inl by (simp add: select_audio_url_def single_def)
    have nok: "\<not> ?ok" using none by blast
    have tab: "recordings_table (backend a') = recordings_table (backend a)"
      using fc a' by simp
    show ?thesis using res a' none nok tab by auto
  next
    case (Inr audio_url)
    let ?key = "u_id u @ ''/'' @ last_segment audio_url"
    obtain r0 where ff: "fetch_fault io = None" and r0: "?rows = [r0]"
        and u0: "audio_url = row_audio_url r0"
      using fc Inr by auto
    obtain storageError be2 where
      st: "(if last_segment audio_url \<noteq> [] then storage_remove (remove_fault io) ?key be1
            else (None, be1)) = (storageError, be2)"
      by (cases "(if last_segment audio_url \<noteq> [] then storage_remove (remove_fault io) ?key be1
            else (None, be1))")
    have t2: "recordings_table be2 = recordings_table (backend a)"
      using st fc storage_remove_cases[of "remove_fault io" ?key be1 storageError be2]
      by (auto split: if_splits)
    have se: "last_segment audio_url \<noteq> [] \<Longrightarrow> storageError = remove_fault io"
      using st storage_remove_cases[of "remove_fault io" ?key be1 storageError be2] by simp
    have sn: "last_segment audio_url = [] \<Longrightarrow> storageError = None"
      using st by simp
    have url: "?rows = [r] \<Longrightarrow> audio_url = row_audio_url r" for r
      using r0 u0 by simp
    show ?thesis
    proof (cases storageError)
      case (Some e)
      have res: "res = Threw (getErrorMessage e)" and a': "a' = a\<lparr> backend := be2 \<rparr>"
        using del owner f Inr st Some by (simp_all add: deleteRecording_def Let_def)
      have seg: "last_segment audio_url \<noteq> []" using sn Some by auto
      have rf: "remove_fault io = Some e" using se[OF seg] Some by simp
      have nok: "\<not> ?ok" using seg rf url by auto
      show ?thesis using res a' nok t2 rf url by auto
    next
      case None
      have rm: "last_segment (row_audio_url r0) \<noteq> [] \<longrightarrow> remove_fault io = None"
        using se None u0 by simp
      obtain dbError be3 where
        d: "delete_recording (delete_fault io) (u_id u) rid be2 = (dbError, be3)"
        by (cases "delete_recording (delete_fault io) (u_id u) rid be2")
      note dc = delete_recording_cases[OF d]
      show ?thesis
      proof (cases dbError)
        case (Some e)
        have res: "res = Threw (getErrorMessage e)" and a': "a' = a\<lparr> backend := be3 \<rparr>"
          using del owner f Inr st None d Some by (simp_all add: deleteRecording_def Let_def)
        have "delete_fault io = Some e" using dc Some by simp
        then have nok: "\<not> ?ok" by simp
        have thr: "?rows = [r] \<Longrightarrow> last_segment (row_audio_url r) \<noteq> []
                     \<Longrightarrow> remove_fault io = Some e' \<Longrightarrow> False" for r e'
          using r0 rm by simp
        show ?thesis using res a' nok t2 dc Some thr by auto
      next
        case dn: None
        have res: "res = Returned"
          and a': "a' = a\<lparr> recordings := filter (\<lambda>rec. rec_id rec \<noteq> rid) (recordings a),
                             backend := be3 \<rparr>"
          using del owner f Inr st None d dn by (simp_all add: deleteRecording_def Let_def)
        have ok: "?ok" using ff r0 rm dc dn by auto
        have thr: "?rows = [r] \<Longrightarrow> last_segment (row_audio_url r) \<noteq> []
                     \<Longrightarrow> remove_fault io = Some e' \<Longrightarrow> False" for r e'
          using r0 rm by simp
        show ?thesis using res a' ok t2 dc dn thr by auto
      qed
    qed
  qed
qed

lemma set_sort_insert: "set (sort_insert cmp x xs) = insert x (set xs)"
  by (induction xs) auto

lemma sorted_sort_insert:
  fixes k :: "'a \<Rightarrow> int"
  assumes "sorted_wrt (\<lambda>a b. k b \<le> k a) xs"
  shows "sorted_wrt (\<lambda>a b. k b \<le> k a) (sort_insert (\<lambda>a b. k b - k a) x xs)"
  using assms
proof (induction xs)
  case Nil
  then show ?case by simp
next
  case (Cons y ys)
  show ?case
  proof (cases "k y \<le> k x")
    case True
    then show ?thesis using Cons.prems by auto
  next
    case False
    then show ?thesis using Cons by (auto simp: set_sort_insert)
  qed
qed

lemma sorted_Array_sort:
  fixes k :: "'a \<Rightarrow> int"
  shows "sorted_wrt (\<lambda>a b. k b \<le> k a) (Array_sort (\<lambda>a b. k b - k a) xs)"
  unfolding Array_sort_def
  by (induction xs) (simp_all add: sorted_sort_insert)

lemma Array_sort_sorted_id:
  fixes k :: "'a \<Rightarrow> int"
  assumes "sorted_wrt (\<lambda>a b. k b \<le> k a) xs"
  shows "Array_sort (\<lambda>a b. k b - k a) xs = xs"
  using assms unfolding Array_sort_def
proof (induction xs)
  case Nil
  then show ?case by simp
next
  case (Cons x xs)
  then have ih: "foldr (sort_insert (\<lambda>a b. k b - k a)) xs [] = xs" by simp
  have "foldr (sort_insert (\<lambda>a b. k b - k a)) (x # xs) [] = sort_insert (\<lambda>a b. k b - k a) x xs"
    by (simp add: ih)
  also have "\<dots> = x # xs" using Cons.prems by (cases xs) simp_all
  finally show ?case .
qed

lemma newest_first_imp_ms: "newest_first rs \<Longrightarrow> newest_first_ms rs"
  unfolding newest_first_def newest_first_ms_def getTime_def
  by (erule sorted_wrt_mono_rel[rotated]) (simp add: zdiv_mono1)

text \<open>
  C8.  The list \<open>saveRecording\<close> leaves after a successful save is ordered newest first, and so
  is the list after \<open>loadUserData\<close>, from an empty list (the initial load) as from any list that
  was newest first.  The dashboard's own sort puts any list in newest-first order of the
  millisecond instants it compares, and keeps a list that is newest first in that order.
\<close>

theorem recordings_newest_first:
  "(saveRecording io t b d a = (Returned, a') \<longrightarrow> newest_first (recordings a'))
   \<and> (newest_first (recordings a) \<longrightarrow> newest_first (recordings (loadUserData lio au a)))
   \<and> (recordings a = [] \<longrightarrow> newest_first (recordings (loadUserData lio au a)))
   \<and> newest_first_ms (sortedRecordings lower term_v recs)
   \<and> (newest_first recs \<longrightarrow> newest_first (sortedRecordings lower term_v recs))"
proof -
  have save: "saveRecording io t b d a = (Returned, a') \<longrightarrow> newest_first (recordings a')"
  proof
    assume s: "saveRecording io t b d a = (Returned, a')"
    show "newest_first (recordings a')"
    proof (rule saveRecording_Returned[OF s], goal_cases)
      case (1 u be1 be2)
      show ?case unfolding 1(4) by (rule newest_first_rows)
    qed
  qed
  have load: "newest_first (recordings a) \<longrightarrow> newest_first (recordings (loadUserData lio au a))"
    using loadUserData_recordings[OF refl, of lio au a] newest_first_rows
    by (auto simp: newest_first_def)
  have load0: "recordings a = [] \<longrightarrow> newest_first (recordings (loadUserData lio au a))"
    using load by (simp add: newest_first_def)
  have ms: "newest_first_ms (sortedRecordings lower term_v recs)"
    unfolding newest_first_ms_def sortedRecordings_def
    by (rule sorted_Array_sort[of "\<lambda>r. getTime (rec_date r)"])
  have keep: "newest_first recs \<longrightarrow> newest_first (sortedRecordings lower term_v recs)"
  proof
    assume nf: "newest_first recs"
    then have f: "newest_first (filteredRecordings lower term_v recs)"
      unfolding newest_first_def filteredRecordings_def by (rule sorted_wrt_filter)
    then have "newest_first_ms (filteredRecordings lower term_v recs)"
      by (rule newest_first_imp_ms)
    then have "sortedRecordings lower term_v recs = filteredRecordings lower term_v recs"
      unfolding sortedRecordings_def newest_first_ms_def
      by (rule Array_sort_sorted_id[of "\<lambda>r. getTime (rec_date r)"])
    then show "newest_first (sortedRecordings lower term_v recs)" using f by simp
  qed
  show ?thesis using save load load0 ms keep by simp
qed

lemma example_upload:
  "storage_upload None ''u1/17.wav'' [7, 8, 9] example_backend = (None, be_uploaded)"
  by (simp add: storage_upload_def example_backend_def called_def be_uploaded_def)

lemma example_insert:
  "insert_recording None ''r2'' 2000 ''u1'' [0x54, 0x65, 0x73, 0x74] (getPublicUrl ''u1/17.wav'') 3
     be_uploaded = (None, be_inserted)"
  by (simp add: insert_recording_def be_uploaded_def be_inserted_def called_def stored_row_def
        saved_row_def alice_def)

lemma example_select:
  "select_recordings None ''u1'' (be_inserted\<lparr> calls := cs \<rparr>)
     = (Inr [saved_row, stored_row],
        be_inserted\<lparr> calls := cs @ [SelectRecordings ''u1''] \<rparr>)"
  by (simp add: select_recordings_def be_inserted_def called_def stored_row_def saved_row_def)

lemma example_save_value:
  "saveRecording example_save [0x54, 0x65, 0x73, 0x74] [7, 8, 9] 3 example_auth
     = (Returned, saved_auth)"
proof -
  have u: "user example_auth = Some alice" "backend example_auth = example_backend"
    by (simp_all add: example_auth_def)
  have io: "date_now example_save = 17" "upload_fault example_save = None"
    "insert_fault example_save = None" "reload_fault example_save = None"
    "new_row_id example_save = ''r2''" "db_now example_save = 2000"
    by (simp_all add: example_save_def)
  have f: "u_id alice @ ''/'' @ string_of_nat 17 @ ''.wav'' = ''u1/17.wav''" "u_id alice = ''u1''"
    by (simp_all add: alice_def)
  have b: "be_inserted = be_inserted\<lparr> calls := [StorageUpload ''u1/17.wav'', InsertRecording ''u1''] \<rparr>"
    by (simp add: be_inserted_def)
  have s: "select_recordings None ''u1'' be_inserted
     = (Inr [saved_row, stored_row],
        be_inserted\<lparr> calls := [StorageUpload ''u1/17.wav'', InsertRecording ''u1'',
                                 SelectRecordings ''u1''] \<rparr>)"
    using example_select[of "[StorageUpload ''u1/17.wav'', InsertRecording ''u1'']"]
    by (simp add: b[symmetric])
  show ?thesis
    by (simp add: saveRecording_def u io f example_upload example_insert s saved_auth_def
          example_auth_def)
qed

lemma example_reload_value:
  "loadUserData no_load_faults alice_identity saved_auth
     = saved_auth\<lparr> backend := be_inserted\<lparr> calls := [StorageUpload ''u1/17.wav'',
          InsertRecording ''u1'', SelectRecordings ''u1'', SelectUser ''u1'',
          SelectRecordings ''u1''] \<rparr> \<rparr>"
proof -
  have su: "select_user None ''u1'' (be_inserted\<lparr> calls := [StorageUpload ''u1/17.wav'',
          InsertRecording ''u1'', SelectRecordings ''u1''] \<rparr>)
     = (Inr alice, be_inserted\<lparr> calls := [StorageUpload ''u1/17.wav'', InsertRecording ''u1'',
                                 SelectRecordings ''u1'', SelectUser ''u1''] \<rparr>)"
    by (simp add: select_user_def be_inserted_def single_def alice_def called_def)
  have io: "profile_fault no_load_faults = None" "list_fault no_load_faults = None"
       "au_id alice_identity = ''u1''" "u_id alice = ''u1''"
    by (simp_all add: no_load_faults_def alice_identity_def alice_def)
  show ?thesis
    by (simp add: loadUserData_def io su example_select saved_auth_def)
qed

theorem save_reload_roundtrip_witness:
  "(\<exists>r\<in>set (recordings saved_auth).
       rec_title r = [0x54, 0x65, 0x73, 0x74] \<and> rec_duration r = 3
       \<and> rec_audioUrl r = getPublicUrl ''u1/17.wav'')
   \<and> (\<exists>r\<in>set (recordings (loadUserData no_load_faults alice_identity saved_auth)).
       rec_title r = [0x54, 0x65, 0x73, 0x74] \<and> rec_duration r = 3
       \<and> rec_audioUrl r = getPublicUrl ''u1/17.wav'')"
proof -
  have owner: "user example_auth = Some alice" by (simp add: example_auth_def)
  have url: "getPublicUrl ''u1/17.wav''
      = getPublicUrl (u_id alice @ ''/'' @ string_of_nat (date_now example_save) @ ''.wav'')"
    by (simp add: alice_def example_save_def)
  have same: "au_id alice_identity = u_id alice" by (simp add: alice_identity_def alice_def)
  have ok: "user (loadUserData no_load_faults alice_identity saved_auth) \<noteq> None"
    by (simp add: example_reload_value) (simp add: saved_auth_def)
  show ?thesis
    by (rule save_reload_roundtrip[OF example_save_value owner url same refl ok])
qed

theorem recordings_newest_first_witness:
  "newest_first (recordings saved_auth)
   \<and> map rec_date (recordings saved_auth) = [2000, 1000]
   \<and> newest_first (recordings (loadUserData no_load_faults alice_identity saved_auth))
   \<and> newest_first (sortedRecordings (\<lambda>s. s) [] (recordings saved_auth))"
proof -
  note t = recordings_newest_first[of example_save "[0x54, 0x65, 0x73, 0x74]" "[7, 8, 9]" 3
             example_auth saved_auth no_load_faults alice_identity "\<lambda>s. s" "[]"
             "recordings saved_auth"]
  have a: "newest_first (recordings saved_auth)"
    using t example_save_value by simp
  have d: "map rec_date (recordings saved_auth) = [2000, 1000]"
    by (simp add: saved_auth_def to_recording_def saved_row_def stored_row_def)
  have l: "newest_first (recordings (loadUserData no_load_faults alice_identity saved_auth))"
    using recordings_newest_first[of example_save "[]" "[]" 0 saved_auth saved_auth
            no_load_faults alice_identity "\<lambda>s. s" "[]" "[]"] a by simp
  have s: "newest_first (sortedRecordings (\<lambda>s. s) [] (recordings saved_auth))"
    using t a by simp
  show ?thesis using a d l s by simp
qed

lemma example_delete_ok_value:
  "deleteRecording no_delete_faults ''r1'' example_auth =
     (Returned,
      example_auth\<lparr> recordings := [],
        backend := example_backend\<lparr> recordings_table := [], bucket := Map.empty,
           calls := [SelectAudioUrl ''r1'', StorageRemove ''u1/5.wav'', DeleteRecording ''r1''] \<rparr> \<rparr>)"
  by (simp add: deleteRecording_def no_delete_faults_def example_auth_def example_backend_def
        alice_def stored_row_def select_audio_url_def single_def getPublicUrl_def supabaseUrl_def
        last_segment_def storage_remove_def delete_recording_def called_def to_recording_def
        Let_def)

theorem deleteRecording_outcomes_witness:
  "recordings (snd (deleteRecording no_delete_faults ''r1'' example_auth)) = []
   \<and> recordings_table (backend (snd (deleteRecording no_delete_faults ''r1'' example_auth))) = []
   \<and> fst (deleteRecording removal_fails ''r1'' example_auth) = Threw ''Bad Gateway''
   \<and> recordings (snd (deleteRecording removal_fails ''r1'' example_auth)) = recordings example_auth"
proof -
  have owner: "user example_auth = Some alice" by (simp add: example_auth_def)
  note ok = deleteRecording_outcomes[OF example_delete_ok_value owner]
  note bad = deleteRecording_outcomes[OF example_delete_value owner]
  have r: "filter (\<lambda>rec. rec_id rec \<noteq> ''r1'') (recordings example_auth) = []"
    by (simp add: example_auth_def to_recording_def stored_row_def)
  have t: "filter (\<lambda>r. \<not> (row_id r = ''r1'' \<and> row_user_id r = u_id alice))
             (recordings_table (backend example_auth)) = []"
    by (simp add: example_auth_def example_backend_def stored_row_def alice_def)
  show ?thesis using ok bad r t
    by (simp add: example_delete_ok_value example_delete_value)
qed

section \<open>Properties of playback from the list\<close>

text \<open>
  What the code does for the recording that is marked: when \<open>currentlyPlaying\<close> names \<open>A\<close> and
  \<open>A\<close> has an element, selecting another recording pauses \<open>A\<close>'s element, then plays the other
  one, and marks the other one.
\<close>

lemma marked_first_is_paused:
  assumes "currentlyPlaying s = Some A" "A \<noteq> []" "audioElements s A = Some hA" "B \<noteq> A"
  shows "\<exists>hB. audio_log (playRecording B url s) = audio_log s @ [PauseCall hA, PlayCall hB]
            \<and> audioElements (playRecording B url s) B = Some hB
            \<and> currentlyPlaying (playRecording B url s) = Some B"
  using assms
  by (cases "audioElements s B")
     (simp_all add: playRecording_def pause_element_def play_element_def Let_def)

lemma back_on_dashboard_state:
  "back_on_dashboard =
     \<lparr> currentlyPlaying = None, audioElements = Map.empty, mount = 1, element_playing = {1},
       element_src = [1 \<mapsto> ''https://cdn.example.org/u1/5.wav''], element_mount = [1 \<mapsto> 0],
       next_element = 1, audio_log = [PlayCall 1] \<rparr>"
  by (simp add: back_on_dashboard_def dashboard_run_def init_dashboard_def playRecording_def
        play_element_def remount_def Let_def)

text \<open>
  C6.  The code does not keep the claim once the dashboard has been left and entered again.
  Recording \<open>r1\<close> is started from the list; the recorder is opened and closed, which mounts the
  dashboard anew while \<open>r1\<close>'s element goes on playing, known to no state.  Selecting \<open>r2\<close> then
  plays its element without any \<open>pause()\<close>: both elements are playing, and only \<open>r2\<close> is marked.
\<close>

theorem second_play_after_remount:
  "element_playing back_on_dashboard = {1}
   \<and> currentlyPlaying back_on_dashboard = None
   \<and> audio_log (playRecording ''r2'' ''https://cdn.example.org/u1/17.wav'' back_on_dashboard)
       = [PlayCall 1, PlayCall 2]
   \<and> element_playing (playRecording ''r2'' ''https://cdn.example.org/u1/17.wav'' back_on_dashboard)
       = {1, 2}
   \<and> currentlyPlaying (playRecording ''r2'' ''https://cdn.example.org/u1/17.wav'' back_on_dashboard)
       = Some ''r2''"
  by (auto simp: back_on_dashboard_state playRecording_def play_element_def Let_def)

section \<open>Properties of the live waveform\<close>














lemma draw_loop_eq:
  "draw_loop sw h d i x =
     map (\<lambda>j. path_call j (x + real (j - i) * sw, (real (unat (d ! j)) / 128) * (real h / 2)))
       [i..<length d]"
proof (induction sw h d i x rule: draw_loop.induct)
  case (1 sliceWidth height dataArray i x)
  show ?case
  proof (cases "i < length dataArray")
    case False
    then show ?thesis by simp
  next
    case True
    have up: "[i..<length dataArray] = i # [i + 1..<length dataArray]"
      using True by (simp add: upt_conv_Cons)
    have ih: "draw_loop sliceWidth height dataArray (i + 1) (x + sliceWidth) =
        map (\<lambda>j. path_call j (x + sliceWidth + real (j - (i + 1)) * sliceWidth,
                 (real (unat (dataArray ! j)) / 128) * (real height / 2)))
          [i + 1..<length dataArray]"
      using "1.IH"[OF True refl refl] .
    have tail: "map (\<lambda>j. path_call j (x + sliceWidth + real (j - (i + 1)) * sliceWidth,
                 (real (unat (dataArray ! j)) / 128) * (real height / 2)))
          [i + 1..<length dataArray]
        = map (\<lambda>j. path_call j (x + real (j - i) * sliceWidth,
                 (real (unat (dataArray ! j)) / 128) * (real height / 2)))
          [i + 1..<length dataArray]"
    proof (rule map_cong[OF refl])
      fix j assume "j \<in> set [i + 1..<length dataArray]"
      then have "i < j" by simp
      then have "real (j - i) = real (j - (i + 1)) + 1" by (simp add: of_nat_diff)
      then show "path_call j (x + sliceWidth + real (j - (i + 1)) * sliceWidth,
                 (real (unat (dataArray ! j)) / 128) * (real height / 2))
               = path_call j (x + real (j - i) * sliceWidth,
                 (real (unat (dataArray ! j)) / 128) * (real height / 2))"
        by (simp add: algebra_simps)
    qed
    have "draw_loop sliceWidth height dataArray i x =
            (if i = 0 then MoveTo x ((real (unat (dataArray ! i)) / 128) * (real height / 2))
             else LineTo x ((real (unat (dataArray ! i)) / 128) * (real height / 2)))
            # draw_loop sliceWidth height dataArray (i + 1) (x + sliceWidth)"
      using True by (subst draw_loop.simps) (simp add: Let_def)
    then show ?thesis
      unfolding ih tail up by (simp add: path_call_def)
  qed
qed

text \<open>
  C9.  One \<open>draw\<close> clears the canvas, sets the line style, begins one path, moves to the point
  of sample \<open>0\<close> and draws a line to the point of every later sample in index order, where
  sample \<open>i\<close> with value \<open>s\<close> has the point \<open>(i \<sqdot> (width / N), (s / 128) \<sqdot> (height / 2))\<close>; the path
  is closed off with a line to \<open>(width, height / 2)\<close> and stroked once.  Every normalised value
  \<open>s / 128\<close> lies between \<open>0\<close> and \<open>2\<close>.
\<close>

theorem live_polyline:
  "draw_calls width height dataArray =
     [ClearRect 0 0 (real width) (real height), SetLineWidth 2,
      SetStrokeStyle ''rgb(102, 217, 232)'', SetShadowBlur 10,
      SetShadowColor ''rgb(102, 217, 232)'', BeginPath]
     @ map (\<lambda>i. path_call i (sample_point width height dataArray i)) [0..<length dataArray]
     @ [LineTo (real width) (real height / 2), Stroke]
   \<and> (\<forall>i<length dataArray. 0 \<le> real (unat (dataArray ! i)) / 128
                            \<and> real (unat (dataArray ! i)) / 128 \<le> 2)"
proof -
  have "draw_loop (real width / real (length dataArray)) height dataArray 0 0
          = map (\<lambda>i. path_call i (sample_point width height dataArray i)) [0..<length dataArray]"
    unfolding draw_loop_eq sample_point_def by simp
  then have calls: "draw_calls width height dataArray =
     [ClearRect 0 0 (real width) (real height), SetLineWidth 2,
      SetStrokeStyle ''rgb(102, 217, 232)'', SetShadowBlur 10,
      SetShadowColor ''rgb(102, 217, 232)'', BeginPath]
     @ map (\<lambda>i. path_call i (sample_point width height dataArray i)) [0..<length dataArray]
     @ [LineTo (real width) (real height / 2), Stroke]"
    by (simp add: draw_calls_def Let_def)
  have range: "\<forall>i<length dataArray. 0 \<le> real (unat (dataArray ! i)) / 128
                            \<and> real (unat (dataArray ! i)) / 128 \<le> 2"
  proof (intro allI impI)
    fix i
    define r where "r = real (unat (dataArray ! i))"
    have "unat (dataArray ! i) < 2 ^ 8"
      using unsigned_less[of "dataArray ! i", where ?'a = nat] by simp
    then have "unat (dataArray ! i) < 256" by simp
    then have "r < real 256" unfolding r_def by (simp only: of_nat_less_iff)
    then have lt: "r < 256" by simp
    have nn: "0 \<le> r" unfolding r_def by (rule of_nat_0_le_iff)
    have "0 \<le> r / 128 \<and> r / 128 \<le> 2" using lt nn by simp
    then show "0 \<le> real (unat (dataArray ! i)) / 128 \<and> real (unat (dataArray ! i)) / 128 \<le> 2"
      unfolding r_def .
  qed
  show ?thesis using calls range by simp
qed

theorem live_polyline_witness:
  "draw_calls 4 2 [128, 255, 0, 64] =
     [ClearRect 0 0 4 2, SetLineWidth 2, SetStrokeStyle ''rgb(102, 217, 232)'', SetShadowBlur 10,
      SetShadowColor ''rgb(102, 217, 232)'', BeginPath,
      MoveTo 0 1, LineTo 1 (255 / 128), LineTo 2 0, LineTo 3 (1 / 2), LineTo 4 1, Stroke]"
proof -
  note t = live_polyline[of 4 2 "[128, 255, 0, 64]"]
  have u: "[0..<length [128, 255, 0, 64 :: byte]] = [0, 1, 2, 3]"
    by (simp add: upt_rec)
  have pts: "map (\<lambda>i. path_call i (sample_point 4 2 [128, 255, 0, 64] i)) [0, 1, 2, 3]
       = [MoveTo 0 1, LineTo 1 (255 / 128), LineTo 2 0, LineTo 3 (1 / 2)]"
    by (simp add: path_call_def sample_point_def)
  show ?thesis using t unfolding u pts by simp
qed

end
